theory Spec2Isabelle
  imports Complex_Main "HOL-Library.Word"
begin

unbundle bit_operations_syntax

section \<open>Result codes and constants of the host engine\<close>

text \<open>
  The module is written against the SQLite C interface. The result codes and the
  operator code below carry the values the SQLite header gives them; the module only
  compares them with one another.
\<close>

definition SQLITE_OK :: int where "SQLITE_OK = 0"
definition SQLITE_ERROR :: int where "SQLITE_ERROR = 1"
definition SQLITE_NOMEM :: int where "SQLITE_NOMEM = 7"
definition SQLITE_CONSTRAINT :: int where "SQLITE_CONSTRAINT = 19"
definition SQLITE_MISUSE :: int where "SQLITE_MISUSE = 21"
definition SQLITE_ROW :: int where "SQLITE_ROW = 100"
definition SQLITE_DONE :: int where "SQLITE_DONE = 101"
definition SQLITE_INDEX_CONSTRAINT_EQ :: "8 word" where "SQLITE_INDEX_CONSTRAINT_EQ = 2"

section \<open>The relation handle\<close>

text \<open>
  \<^verbatim>\<open>struct statement_vtab\<close>: the query text between the parentheses, its length, and
  the two counts taken from the prepared statement. The \<^verbatim>\<open>db\<close> pointer is the
  connection every host call goes through; the host's services are passed to the
  functions below as explicit arguments instead.
\<close>

record statement_vtab =
  sql :: string
  sql_len :: nat
  num_inputs :: int
  num_outputs :: int

section \<open>The planner: \<^verbatim>\<open>statement_vtab_best_index\<close>\<close>

text \<open>
  \<^verbatim>\<open>sqlite3_index_info\<close> as far as the planner reads and writes it. The two arrays
  \<^verbatim>\<open>aConstraint\<close> and \<^verbatim>\<open>aConstraintUsage\<close> have \<^verbatim>\<open>nConstraint\<close> entries each;
  \<^verbatim>\<open>nConstraint\<close> is the length of the first list. The three \<^verbatim>\<open>unsigned char\<close> fields
  are 8-bit words. Column numbers are bounded by the host's column limit, far below
  the range of a C \<^verbatim>\<open>int\<close>, so the \<^verbatim>\<open>int\<close> arithmetic of the planner is exact and
  is modelled in \<^typ>\<open>int\<close>; the 64-bit column mask is a \<^typ>\<open>64 word\<close>.
\<close>

record sqlite3_index_constraint =
  iColumn :: int
  op :: "8 word"
  usable :: "8 word"

record sqlite3_index_constraint_usage =
  argvIndex :: int
  omit :: "8 word"

record sqlite3_index_info =
  aConstraint :: "sqlite3_index_constraint list"
  aConstraintUsage :: "sqlite3_index_constraint_usage list"
  idxStr :: "int list option"
  needToFreeIdxStr :: bool
  orderByConsumed :: bool
  estimatedCost :: real
  estimatedRows :: int

text \<open>The local variables of the first loop, together with the usage array it writes.\<close>

record plan_state =
  col_max :: int
  used_cols :: "64 word"
  out_constraints :: int
  usage :: "sqlite3_index_constraint_usage list"

text \<open>The locals as the first loop finds them.\<close>

definition plan_start :: "sqlite3_index_constraint_usage list \<Rightarrow> plan_state" where
  "plan_start us = \<lparr>col_max = 0, used_cols = 0, out_constraints = 0, usage = us\<rparr>"

text \<open>
  The first loop, \<^verbatim>\<open>for(i = 0; i < nConstraint; i++)\<close>, walking \<^verbatim>\<open>aConstraint\<close> from
  entry \<open>i\<close> on. The boolean is \<open>False\<close> where the source leaves the function with
  \<^verbatim>\<open>return SQLITE_CONSTRAINT\<close>; the usage entries written before that stay written.
\<close>

fun scan_constraints ::
  "int \<Rightarrow> sqlite3_index_constraint list \<Rightarrow> nat \<Rightarrow> plan_state \<Rightarrow> bool \<times> plan_state" where
  "scan_constraints nout [] i st = (True, st)"
| "scan_constraints nout (c # cs) i st =
     (if iColumn c < nout then scan_constraints nout cs (Suc i) st
      else if usable c = 0 \<or> op c \<noteq> SQLITE_INDEX_CONSTRAINT_EQ then (False, st)
      else
        let col_index = iColumn c - nout;
            us = (usage st)[i := (usage st ! i)\<lparr>argvIndex := col_index + 1, omit := 1\<rparr>];
            cm = (if col_index + 1 > col_max st then col_index + 1 else col_max st);
            uc = (if col_index < 64 then used_cols st OR push_bit (nat col_index) 1
                  else used_cols st)
        in scan_constraints nout cs (Suc i)
             \<lparr>col_max = cm, used_cols = uc, out_constraints = out_constraints st + 1,
              usage = us\<rparr>)"

text \<open>
  One round of the second loop: an entry whose \<^verbatim>\<open>argvIndex\<close> is not zero has its
  old index stored at \<^verbatim>\<open>colmap[argc]\<close> and receives \<^verbatim>\<open>++argc\<close>.
\<close>

definition remap_step ::
  "nat \<Rightarrow> int \<times> int list \<times> sqlite3_index_constraint_usage list
       \<Rightarrow> int \<times> int list \<times> sqlite3_index_constraint_usage list" where
  "remap_step i s =
     (case s of (argc, colmap, us) \<Rightarrow>
        let old_index = argvIndex (us ! i) in
        if old_index \<noteq> 0
        then (argc + 1, colmap[nat argc := old_index], us[i := (us ! i)\<lparr>argvIndex := argc + 1\<rparr>])
        else (argc, colmap, us))"

definition remap_constraints ::
  "nat \<Rightarrow> int list \<Rightarrow> sqlite3_index_constraint_usage list
       \<Rightarrow> int \<times> int list \<times> sqlite3_index_constraint_usage list" where
  "remap_constraints n colmap us = fold remap_step [0..<n] (0, colmap, us)"

text \<open>
  \<^verbatim>\<open>statement_vtab_best_index\<close>. The flag \<open>malloc_ok\<close> says whether the allocation of
  the index map succeeds. The map is allocated with \<^verbatim>\<open>out_constraints\<close> cells whose
  content is not initialised (the model starts them at 0); the second loop then fills
  cell \<^verbatim>\<open>argc\<close> in each round that finds a consumed predicate.
\<close>

definition statement_vtab_best_index ::
  "statement_vtab \<Rightarrow> bool \<Rightarrow> sqlite3_index_info \<Rightarrow> int \<times> sqlite3_index_info" where
  "statement_vtab_best_index pVTab malloc_ok index_info =
     (let info0 = index_info\<lparr>orderByConsumed := False, estimatedCost := 1, estimatedRows := 1\<rparr>;
          (feasible, st) = scan_constraints (num_outputs pVTab) (aConstraint info0) 0
             (plan_start (aConstraintUsage info0));
          info1 = info0\<lparr>aConstraintUsage := usage st\<rparr>
      in if \<not> feasible then (SQLITE_CONSTRAINT, info1)
         else
           let required_cols = (if col_max st < 64 then push_bit (nat (col_max st)) 1 else 0) - 1
           in if out_constraints st = 0 \<or> (col_max st \<le> 64 \<and> used_cols st = required_cols)
              then (SQLITE_OK, info1)
              else if \<not> malloc_ok then (SQLITE_NOMEM, info1)
              else
                let (argc, colmap, us) =
                      remap_constraints (length (aConstraint info1))
                        (replicate (nat (out_constraints st)) 0) (aConstraintUsage info1)
                in (SQLITE_OK, info1\<lparr>aConstraintUsage := us, idxStr := Some colmap,
                                      needToFreeIdxStr := True\<rparr>))"

text \<open>
  The vocabulary of the planner's contract. A predicate is on a hidden input column when
  its column number is not below \<^verbatim>\<open>num_outputs\<close>; it is a usable equality when its
  \<^verbatim>\<open>usable\<close> flag is set and its operator is equality. \<open>hidden_cols\<close> lists the
  0-based hidden-column indices of the predicates on hidden columns, in request order.
\<close>

definition on_hidden :: "int \<Rightarrow> sqlite3_index_constraint \<Rightarrow> bool" where
  "on_hidden nout c = (\<not> iColumn c < nout)"

definition usable_eq :: "sqlite3_index_constraint \<Rightarrow> bool" where
  "usable_eq c = (usable c \<noteq> 0 \<and> op c = SQLITE_INDEX_CONSTRAINT_EQ)"

definition hidden_cols :: "int \<Rightarrow> sqlite3_index_constraint list \<Rightarrow> int list" where
  "hidden_cols nout cs = map (\<lambda>c. iColumn c - nout) (filter (on_hidden nout) cs)"

text \<open>
  The host hands the planner a request whose usage entries are all zero and which
  carries no auxiliary data yet.
\<close>

definition host_initialised :: "sqlite3_index_info \<Rightarrow> bool" where
  "host_initialised index_info =
     (aConstraintUsage index_info =
        replicate (length (aConstraint index_info)) \<lparr>argvIndex = 0, omit = 0\<rparr>
      \<and> idxStr index_info = None \<and> \<not> needToFreeIdxStr index_info)"

text \<open>
  The two ways the planner fills the usage array. With the identity order the predicate
  on hidden column \<open>c\<close> gets argument position \<open>c + 1\<close>; with an index map the
  consumed predicates are numbered 1, 2, ... in request order. A predicate on an output
  column keeps its zero entry in both.
\<close>

definition identity_usage ::
  "int \<Rightarrow> sqlite3_index_constraint \<Rightarrow> sqlite3_index_constraint_usage" where
  "identity_usage nout c =
     (if on_hidden nout c then \<lparr>argvIndex = iColumn c - nout + 1, omit = 1\<rparr>
      else \<lparr>argvIndex = 0, omit = 0\<rparr>)"

definition dense_usage ::
  "int \<Rightarrow> sqlite3_index_constraint list \<Rightarrow> nat \<Rightarrow> sqlite3_index_constraint_usage" where
  "dense_usage nout cs j =
     (if on_hidden nout (cs ! j)
      then \<lparr>argvIndex = int (length (filter (on_hidden nout) (take (Suc j) cs))), omit = 1\<rparr>
      else \<lparr>argvIndex = 0, omit = 0\<rparr>)"

definition nz :: "sqlite3_index_constraint_usage \<Rightarrow> bool" where
  "nz u = (argvIndex u \<noteq> 0)"

text \<open>The request with the predicates on output columns taken out.\<close>

definition without_outputs :: "int \<Rightarrow> sqlite3_index_info \<Rightarrow> sqlite3_index_info" where
  "without_outputs nout index_info =
     index_info\<lparr>aConstraint := filter (on_hidden nout) (aConstraint index_info),
                aConstraintUsage :=
                  replicate (length (filter (on_hidden nout) (aConstraint index_info)))
                    \<lparr>argvIndex = 0, omit = 0\<rparr>\<rparr>"

text \<open>
  Concrete requests: the relation of a query with one result column and three
  parameters, a usable equality predicate on a column, and the request as the host
  sets it up for a list of predicates.
\<close>

definition example_vtab :: statement_vtab where
  "example_vtab =
     \<lparr>sql = ''SELECT v FROM t WHERE a = ?1 AND b = ?2 AND c = ?3'', sql_len = 50,
      num_inputs = 3, num_outputs = 1\<rparr>"

definition eq_on :: "int \<Rightarrow> sqlite3_index_constraint" where
  "eq_on col = \<lparr>iColumn = col, op = SQLITE_INDEX_CONSTRAINT_EQ, usable = 1\<rparr>"

definition host_request :: "sqlite3_index_constraint list \<Rightarrow> sqlite3_index_info" where
  "host_request cs =
     \<lparr>aConstraint = cs,
      aConstraintUsage = replicate (length cs) \<lparr>argvIndex = 0, omit = 0\<rparr>,
      idxStr = None, needToFreeIdxStr = False, orderByConsumed = False,
      estimatedCost = 5 * 10 ^ 98, estimatedRows = 25\<rparr>"

section \<open>The services of the host engine\<close>

text \<open>
  The prepared-statement interface the module calls, as a record of functions over an
  abstract statement state \<open>'s\<close> and abstract values \<open>'v\<close>. Nothing is assumed about
  them: every theorem below holds for any host. A call that changes the statement
  returns the new state. \<^verbatim>\<open>sqlite3_prepare_v2\<close> and \<^verbatim>\<open>sqlite3_declare_vtab\<close> act on the
  connection \<^verbatim>\<open>db\<close>; \<^verbatim>\<open>sqlite3_errmsg\<close> is the connection's message for the call that
  failed last. A \<^verbatim>\<open>NULL\<close> string is \<open>None\<close>.
\<close>

record ('s, 'v) sqlite3_api =
  sqlite3_prepare_v2 :: "string \<Rightarrow> int \<times> 's"
  sqlite3_stmt_readonly :: "'s \<Rightarrow> bool"
  sqlite3_bind_parameter_count :: "'s \<Rightarrow> int"
  sqlite3_column_count :: "'s \<Rightarrow> int"
  sqlite3_column_name :: "'s \<Rightarrow> int \<Rightarrow> string option"
  sqlite3_column_decltype :: "'s \<Rightarrow> int \<Rightarrow> string option"
  sqlite3_bind_parameter_name :: "'s \<Rightarrow> int \<Rightarrow> string option"
  sqlite3_declare_vtab :: "string \<Rightarrow> int"
  sqlite3_errmsg :: string
  sqlite3_reset :: "'s \<Rightarrow> 's"
  sqlite3_clear_bindings :: "'s \<Rightarrow> 's"
  sqlite3_bind_value :: "'s \<Rightarrow> int \<Rightarrow> 'v \<Rightarrow> int \<times> 's"
  sqlite3_step :: "'s \<Rightarrow> int \<times> 's"
  sqlite3_column_value :: "'s \<Rightarrow> int \<Rightarrow> 'v"
  sqlite3_stmt_busy :: "'s \<Rightarrow> bool"

text \<open>Which of the allocations made while a relation is created succeed.\<close>

record host_memory =
  vtab_malloc_ok :: bool
  sql_mprintf_ok :: bool
  err_mprintf_ok :: bool
  str_ok :: bool

section \<open>The schema deriver: \<^verbatim>\<open>build_create_statement\<close>\<close>

text \<open>The two \<^verbatim>\<open>printf\<close> conversions used: \<^verbatim>\<open>%Q\<close> and \<^verbatim>\<open>%d\<close>.\<close>

definition fmt_Q :: "string \<Rightarrow> string" where
  "fmt_Q z = [CHR 0x27] @ concat (map (\<lambda>c. if c = CHR 0x27 then [c, c] else [c]) z) @ [CHR 0x27]"

definition digit_char :: "nat \<Rightarrow> char" where
  "digit_char d = ''0123456789'' ! d"

fun dec_nat :: "nat \<Rightarrow> string" where
  "dec_nat n = (if n < 10 then [digit_char n] else dec_nat (n div 10) @ [digit_char (n mod 10)])"

declare dec_nat.simps [simp del]

definition fmt_d :: "int \<Rightarrow> string" where
  "fmt_d i = (if i < 0 then CHR ''-'' # dec_nat (nat (- i)) else dec_nat (nat i))"

text \<open>
  The first loop of \<^verbatim>\<open>build_create_statement\<close>, from column \<open>i\<close> on; \<open>None\<close> is the
  \<^verbatim>\<open>return NULL\<close> taken when a column has no name.
\<close>

function append_outputs ::
  "('s, 'v) sqlite3_api \<Rightarrow> 's \<Rightarrow> int \<Rightarrow> int \<Rightarrow> string \<Rightarrow> string option" where
  "append_outputs api pStmt nout i zSql =
     (if i < nout then
        (case sqlite3_column_name api pStmt i of
           None \<Rightarrow> None
         | Some name \<Rightarrow>
             append_outputs api pStmt nout (i + 1)
               (zSql @ fmt_Q name @ '' '' @
                  (case sqlite3_column_decltype api pStmt i of None \<Rightarrow> [] | Some type \<Rightarrow> type)
                  @ '',''))
      else Some zSql)"
  by pat_completeness auto
termination
  by (relation "measure (\<lambda>(api, pStmt, nout, i, zSql). nat (nout - i))") auto

declare append_outputs.simps [simp del]

text \<open>The second loop, from parameter \<open>i + 1\<close> on.\<close>

function append_inputs ::
  "('s, 'v) sqlite3_api \<Rightarrow> 's \<Rightarrow> int \<Rightarrow> int \<Rightarrow> string \<Rightarrow> string" where
  "append_inputs api pStmt nargs i zSql =
     (if i < nargs then
        append_inputs api pStmt nargs (i + 1)
          (zSql @
             (case sqlite3_bind_parameter_name api pStmt (i + 1) of
                Some name \<Rightarrow> fmt_Q (drop 1 name) @ '' hidden,''
              | None \<Rightarrow> [CHR 0x27] @ fmt_d (i + 1) @ [CHR 0x27] @ '' hidden,''))
      else zSql)"
  by pat_completeness auto
termination
  by (relation "measure (\<lambda>(api, pStmt, nargs, i, zSql). nat (nargs - i))") auto

declare append_inputs.simps [simp del]

text \<open>
  \<^verbatim>\<open>build_create_statement\<close>. The text is accumulated in a host string builder; when
  the builder cannot allocate (\<open>builder_ok\<close> is \<open>False\<close>) its \<^verbatim>\<open>finish\<close> yields
  \<^verbatim>\<open>NULL\<close>. A parameter name always starts with its marker character, which
  \<^verbatim>\<open>name+1\<close> skips.
\<close>

definition build_create_statement ::
  "('s, 'v) sqlite3_api \<Rightarrow> bool \<Rightarrow> 's \<Rightarrow> string option" where
  "build_create_statement api builder_ok pStmt =
     (case append_outputs api pStmt (sqlite3_column_count api pStmt) 0 ''CREATE TABLE x( '' of
        None \<Rightarrow> None
      | Some z1 \<Rightarrow>
          let z2 = append_inputs api pStmt (sqlite3_bind_parameter_count api pStmt) 0 z1;
              z3 = (if length z2 \<noteq> 0 then z2[length z2 - 1 := CHR '')''] else z2)
          in if builder_ok then Some z3 else None)"

text \<open>
  The schema as the specification words it: the output columns in statement order, then
  one hidden column per parameter in parameter order, named by the parameter's name
  without its marker or, for an unnamed parameter, by its 1-based position in decimal.
\<close>

record column_schema_entry =
  col_name :: string
  declared_type :: string
  hidden :: bool

definition spec_output_column :: "('s, 'v) sqlite3_api \<Rightarrow> 's \<Rightarrow> int \<Rightarrow> column_schema_entry" where
  "spec_output_column api pStmt i =
     \<lparr>col_name = (case sqlite3_column_name api pStmt i of Some name \<Rightarrow> name | None \<Rightarrow> []),
      declared_type = (case sqlite3_column_decltype api pStmt i of Some type \<Rightarrow> type | None \<Rightarrow> []),
      hidden = False\<rparr>"

definition spec_input_column :: "('s, 'v) sqlite3_api \<Rightarrow> 's \<Rightarrow> int \<Rightarrow> column_schema_entry" where
  "spec_input_column api pStmt k =
     \<lparr>col_name = (case sqlite3_bind_parameter_name api pStmt k of
                    Some name \<Rightarrow> drop 1 name
                  | None \<Rightarrow> fmt_d k),
      declared_type = [],
      hidden = True\<rparr>"

definition spec_columns :: "('s, 'v) sqlite3_api \<Rightarrow> 's \<Rightarrow> column_schema_entry list" where
  "spec_columns api pStmt =
     map (spec_output_column api pStmt) [0..sqlite3_column_count api pStmt - 1] @
     map (spec_input_column api pStmt) [1..sqlite3_bind_parameter_count api pStmt]"

definition spec_column_text :: "column_schema_entry \<Rightarrow> string" where
  "spec_column_text e =
     fmt_Q (col_name e) @ '' '' @ (if hidden e then ''hidden'' else declared_type e) @ '',''"

definition spec_schema_text :: "column_schema_entry list \<Rightarrow> string" where
  "spec_schema_text es =
     butlast (''CREATE TABLE x( '' @ concat (map spec_column_text es)) @ '')''"

section \<open>Creating and connecting: \<^verbatim>\<open>statement_vtab_create\<close>\<close>

text \<open>
  The two labels \<^verbatim>\<open>sqlite_error\<close> and \<^verbatim>\<open>error\<close>: the first stores the connection's
  message, both release what was built and clear \<^verbatim>\<open>*ppVtab\<close>.
\<close>

definition sqlite_error ::
  "('s, 'v) sqlite3_api \<Rightarrow> host_memory \<Rightarrow> int \<Rightarrow> int \<times> statement_vtab option \<times> string option" where
  "sqlite_error api mem ret =
     (if \<not> err_mprintf_ok mem then (SQLITE_NOMEM, None, None)
      else (ret, None, Some (sqlite3_errmsg api)))"

text \<open>
  \<^verbatim>\<open>statement_vtab_create\<close>. \<open>argv\<close> is the argument vector (\<^verbatim>\<open>argc\<close> is its length);
  \<open>ppVtab\<close> and \<open>pzErr\<close> are what the two out-parameters hold on entry, and the result
  is the return code with what they hold on return.
\<close>

definition statement_vtab_create ::
  "('s, 'v) sqlite3_api \<Rightarrow> host_memory \<Rightarrow> string list \<Rightarrow> statement_vtab option \<Rightarrow> string option
     \<Rightarrow> int \<times> statement_vtab option \<times> string option" where
  "statement_vtab_create api mem argv ppVtab pzErr =
     (if int (length argv) < 4 \<or> length (argv ! 3) < 3 then
        (if \<not> err_mprintf_ok mem then (SQLITE_NOMEM, ppVtab, None)
         else (SQLITE_MISUSE, ppVtab, Some ''no statement provided''))
      else
        let len = length (argv ! 3) in
        if (argv ! 3) ! 0 \<noteq> CHR ''('' \<or> (argv ! 3) ! (len - 1) \<noteq> CHR '')'' then
          (if \<not> err_mprintf_ok mem then (SQLITE_NOMEM, ppVtab, None)
           else (SQLITE_MISUSE, ppVtab, Some ''statement must be parenthesized''))
        else if \<not> vtab_malloc_ok mem then (SQLITE_NOMEM, ppVtab, pzErr)
        else
          let vtab = \<lparr>sql = [], sql_len = len - 2, num_inputs = 0, num_outputs = 0\<rparr> in
          if \<not> sql_mprintf_ok mem then (SQLITE_NOMEM, None, pzErr)
          else
            let vtab = vtab\<lparr>sql := take (sql_len vtab) (drop 1 (argv ! 3))\<rparr>;
                (ret, pStmt) = sqlite3_prepare_v2 api (take (sql_len vtab) (sql vtab))
            in if ret \<noteq> SQLITE_OK then sqlite_error api mem ret
               else if \<not> sqlite3_stmt_readonly api pStmt then
                 (if \<not> err_mprintf_ok mem then (SQLITE_NOMEM, None, None)
                  else (SQLITE_ERROR, None, Some ''Statement must be read only.''))
               else
                 let vtab = vtab\<lparr>num_inputs := sqlite3_bind_parameter_count api pStmt,
                                  num_outputs := sqlite3_column_count api pStmt\<rparr>
                 in case build_create_statement api (str_ok mem) pStmt of
                      None \<Rightarrow> (SQLITE_NOMEM, None, pzErr)
                    | Some create \<Rightarrow>
                        let ret = sqlite3_declare_vtab api create
                        in if ret \<noteq> SQLITE_OK then sqlite_error api mem ret
                           else (SQLITE_OK, Some vtab, pzErr))"

text \<open>
  The argument of a declaration as the specification words it: the fourth entry of the
  argument vector, at least 3 characters long, opening with a left and closing with a
  right parenthesis; the query text is what stands between the two.
\<close>

definition well_formed_argument :: "string list \<Rightarrow> bool" where
  "well_formed_argument argv =
     (4 \<le> length argv \<and> 3 \<le> length (argv ! 3) \<and> (argv ! 3) ! 0 = CHR ''(''
      \<and> (argv ! 3) ! (length (argv ! 3) - 1) = CHR '')'')"

definition query_text :: "string list \<Rightarrow> string" where
  "query_text argv = take (length (argv ! 3) - 2) (drop 1 (argv ! 3))"

definition statement_vtab_connect ::
  "('s, 'v) sqlite3_api \<Rightarrow> host_memory \<Rightarrow> string list \<Rightarrow> statement_vtab option \<Rightarrow> string option
     \<Rightarrow> int \<times> statement_vtab option \<times> string option" where
  "statement_vtab_connect api mem argv ppVtab pzErr =
     statement_vtab_create api mem argv ppVtab pzErr"

section \<open>The cursor\<close>

text \<open>
  \<^verbatim>\<open>struct statement_cursor\<close>. \<^verbatim>\<open>rowid\<close> is a C \<^verbatim>\<open>int\<close>, a 32-bit word read as signed.
  \<^verbatim>\<open>param_argv\<close> is the buffer of \<^verbatim>\<open>num_inputs\<close> cells allocated when the cursor is
  opened.
\<close>

record ('s, 'v) statement_cursor =
  stmt :: 's
  rowid :: "32 word"
  param_argc :: int
  param_argv :: "'v list"

text \<open>
  What stops a call without a return code: the \<^verbatim>\<open>assert\<close> of
  \<^verbatim>\<open>statement_vtab_filter\<close>, and a read beyond the end of the index map.
\<close>

datatype fault = AssertionFailed | OutOfBounds

text \<open>
  The binding loop of \<^verbatim>\<open>statement_vtab_filter\<close>, from argument \<open>i\<close> on: argument \<open>i\<close>
  is bound to parameter \<^verbatim>\<open>idxStr[i]\<close> when there is an index map and to parameter
  \<open>i + 1\<close> otherwise; the first result code other than \<^verbatim>\<open>SQLITE_OK\<close> is returned.
\<close>

fun bind_arguments ::
  "('s, 'v) sqlite3_api \<Rightarrow> int list option \<Rightarrow> 'v list \<Rightarrow> nat \<Rightarrow> 's \<Rightarrow> fault + int \<times> 's" where
  "bind_arguments api colmap [] i s = Inr (SQLITE_OK, s)"
| "bind_arguments api colmap (v # vs) i s =
     (case colmap of
        Some m \<Rightarrow>
          if i < length m then
            (case sqlite3_bind_value api s (m ! i) v of
               (ret, s') \<Rightarrow>
                 if ret \<noteq> SQLITE_OK then Inr (ret, s') else bind_arguments api colmap vs (Suc i) s')
          else Inl OutOfBounds
      | None \<Rightarrow>
          (case sqlite3_bind_value api s (int i + 1) v of
             (ret, s') \<Rightarrow>
               if ret \<noteq> SQLITE_OK then Inr (ret, s') else bind_arguments api colmap vs (Suc i) s'))"

text \<open>
  \<^verbatim>\<open>statement_vtab_filter\<close>; \<^verbatim>\<open>argc\<close> is the length of \<open>argv\<close>. The \<^verbatim>\<open>memcpy\<close> overwrites
  the first \<^verbatim>\<open>argc\<close> cells of the buffer, which the assertion keeps within its
  \<^verbatim>\<open>num_inputs\<close> cells.
\<close>

definition statement_vtab_filter ::
  "('s, 'v) sqlite3_api \<Rightarrow> statement_vtab \<Rightarrow> ('s, 'v) statement_cursor \<Rightarrow> int \<Rightarrow> int list option
     \<Rightarrow> 'v list \<Rightarrow> fault + int \<times> ('s, 'v) statement_cursor" where
  "statement_vtab_filter api pVtab cur idxNum colmap argv =
     (let argc = int (length argv);
          cur1 = cur\<lparr>rowid := 1\<rparr>;
          s1 = sqlite3_clear_bindings api (sqlite3_reset api (stmt cur1))
      in case bind_arguments api colmap argv 0 s1 of
           Inl f \<Rightarrow> Inl f
         | Inr (ret, s2) \<Rightarrow>
             if ret \<noteq> SQLITE_OK then Inr (ret, cur1\<lparr>stmt := s2\<rparr>)
             else
               (case sqlite3_step api s2 of
                  (ret, s3) \<Rightarrow>
                    let cur2 = cur1\<lparr>stmt := s3\<rparr> in
                    if \<not> (ret = SQLITE_ROW \<or> ret = SQLITE_DONE) then Inr (ret, cur2)
                    else if \<not> (num_inputs pVtab \<ge> argc) then Inl AssertionFailed
                    else if argc \<noteq> 0 then
                      Inr (SQLITE_OK,
                           cur2\<lparr>param_argc := argc,
                                param_argv := take (nat argc) argv @ drop (nat argc) (param_argv cur2)\<rparr>)
                    else Inr (SQLITE_OK, cur2\<lparr>param_argc := argc\<rparr>)))"

definition statement_vtab_next ::
  "('s, 'v) sqlite3_api \<Rightarrow> ('s, 'v) statement_cursor \<Rightarrow> int \<times> ('s, 'v) statement_cursor" where
  "statement_vtab_next api cur =
     (case sqlite3_step api (stmt cur) of
        (ret, s') \<Rightarrow>
          if ret = SQLITE_ROW then (SQLITE_OK, cur\<lparr>stmt := s', rowid := rowid cur + 1\<rparr>)
          else (if ret = SQLITE_DONE then SQLITE_OK else ret, cur\<lparr>stmt := s'\<rparr>))"

definition statement_vtab_rowid :: "('s, 'v) statement_cursor \<Rightarrow> int \<times> int" where
  "statement_vtab_rowid cur = (SQLITE_OK, sint (rowid cur))"

definition statement_vtab_eof :: "('s, 'v) sqlite3_api \<Rightarrow> ('s, 'v) statement_cursor \<Rightarrow> bool" where
  "statement_vtab_eof api cur = (\<not> sqlite3_stmt_busy api (stmt cur))"

text \<open>
  \<^verbatim>\<open>statement_vtab_column\<close>. The context \<open>ctx\<close> is the result slot of the call:
  \<open>None\<close> is the SQL null the host puts there before the call, and
  \<^verbatim>\<open>sqlite3_result_value\<close> stores a value in it.
\<close>

definition sqlite3_result_value :: "'v option \<Rightarrow> 'v \<Rightarrow> 'v option" where
  "sqlite3_result_value ctx v = Some v"

definition statement_vtab_column ::
  "('s, 'v) sqlite3_api \<Rightarrow> statement_vtab \<Rightarrow> ('s, 'v) statement_cursor \<Rightarrow> 'v option \<Rightarrow> int
     \<Rightarrow> int \<times> 'v option" where
  "statement_vtab_column api pVtab cur ctx i =
     (if i < num_outputs pVtab then
        (SQLITE_OK, sqlite3_result_value ctx (sqlite3_column_value api (stmt cur) i))
      else if i - num_outputs pVtab < param_argc cur then
        (SQLITE_OK, sqlite3_result_value ctx (param_argv cur ! nat (i - num_outputs pVtab)))
      else (SQLITE_OK, ctx))"

text \<open>The cursor after \<open>k\<close> further calls of \<^verbatim>\<open>statement_vtab_next\<close>.\<close>

definition advance :: "('s, 'v) sqlite3_api \<Rightarrow> ('s, 'v) statement_cursor \<Rightarrow> ('s, 'v) statement_cursor" where
  "advance api cur = snd (statement_vtab_next api cur)"

text \<open>
  The host never answers a step with \<^verbatim>\<open>SQLITE_OK\<close>: a step yields a row, the end of
  the rows, or an error code.
\<close>

definition step_contract :: "('s, 'v) sqlite3_api \<Rightarrow> bool" where
  "step_contract api = (\<forall>s. fst (sqlite3_step api s) \<noteq> SQLITE_OK)"

section \<open>A small host for concrete runs\<close>

text \<open>
  A host whose statements are described by a query record: the names and declared types
  of the result columns, the names of the parameters, whether the statement is read
  only, and the rows it yields (whatever is bound). Values are strings.
\<close>

record toy_query =
  q_columns :: "(string option \<times> string option) list"
  q_params :: "string option list"
  q_readonly :: bool
  q_rows :: "string list list"

record toy_stmt =
  bound :: "(int \<times> string) list"
  pending :: "string list list"
  current :: "string list option"

definition toy_api :: "toy_query \<Rightarrow> (toy_stmt, string) sqlite3_api" where
  "toy_api q =
     \<lparr>sqlite3_prepare_v2 = (\<lambda>z. (SQLITE_OK, \<lparr>bound = [], pending = q_rows q, current = None\<rparr>)),
      sqlite3_stmt_readonly = (\<lambda>s. q_readonly q),
      sqlite3_bind_parameter_count = (\<lambda>s. int (length (q_params q))),
      sqlite3_column_count = (\<lambda>s. int (length (q_columns q))),
      sqlite3_column_name =
        (\<lambda>s i. if 0 \<le> i \<and> i < int (length (q_columns q)) then fst (q_columns q ! nat i) else None),
      sqlite3_column_decltype =
        (\<lambda>s i. if 0 \<le> i \<and> i < int (length (q_columns q)) then snd (q_columns q ! nat i) else None),
      sqlite3_bind_parameter_name =
        (\<lambda>s i. if 1 \<le> i \<and> i \<le> int (length (q_params q)) then q_params q ! nat (i - 1) else None),
      sqlite3_declare_vtab = (\<lambda>z. SQLITE_OK),
      sqlite3_errmsg = ''not an error'',
      sqlite3_reset = (\<lambda>s. s\<lparr>pending := q_rows q, current := None\<rparr>),
      sqlite3_clear_bindings = (\<lambda>s. s\<lparr>bound := []\<rparr>),
      sqlite3_bind_value = (\<lambda>s i v. (SQLITE_OK, s\<lparr>bound := (i, v) # bound s\<rparr>)),
      sqlite3_step =
        (\<lambda>s. case pending s of
               [] \<Rightarrow> (SQLITE_DONE, s\<lparr>current := None\<rparr>)
             | r # rs \<Rightarrow> (SQLITE_ROW, s\<lparr>pending := rs, current := Some r\<rparr>)),
      sqlite3_column_value =
        (\<lambda>s i. case current s of
                 Some r \<Rightarrow> (if 0 \<le> i \<and> i < int (length r) then r ! nat i else [])
               | None \<Rightarrow> []),
      sqlite3_stmt_busy = (\<lambda>s. current s \<noteq> None)\<rparr>"

text \<open>
  The query \<^verbatim>\<open>SELECT v FROM t WHERE k = :k\<close> over a table with the rows given, its
  relation, and a cursor opened on it.
\<close>

definition toy_select :: "string list list \<Rightarrow> toy_query" where
  "toy_select rows =
     \<lparr>q_columns = [(Some ''v'', Some ''TEXT'')], q_params = [Some '':k''], q_readonly = True,
      q_rows = rows\<rparr>"

definition toy_vtab :: statement_vtab where
  "toy_vtab = \<lparr>sql = ''SELECT v FROM t WHERE k = :k'', sql_len = 28, num_inputs = 1, num_outputs = 1\<rparr>"

definition toy_cursor :: "string list list \<Rightarrow> (toy_stmt, string) statement_cursor" where
  "toy_cursor rows =
     \<lparr>stmt = \<lparr>bound = [], pending = rows, current = None\<rparr>, rowid = 0, param_argc = 0,
      param_argv = [[]]\<rparr>"

text \<open>
  Further concrete inputs: a query with a column without declared type, a named, an
  unnamed and another named parameter; a query whose only column has no name; a query
  that writes; the statement handle the small host prepares; an argument vector for
  \<^verbatim>\<open>SELECT v FROM t WHERE k = :k\<close>; and a memory in which every allocation succeeds.
\<close>

definition toy_mixed :: toy_query where
  "toy_mixed =
     \<lparr>q_columns = [(Some ''v'', Some ''TEXT''), (Some ''n'', None)],
      q_params = [Some '':k'', None, Some ''$lim''], q_readonly = True, q_rows = []\<rparr>"

definition toy_nameless :: toy_query where
  "toy_nameless =
     \<lparr>q_columns = [(None, None)], q_params = [Some '':k''], q_readonly = True, q_rows = []\<rparr>"

definition toy_update :: toy_query where
  "toy_update = \<lparr>q_columns = [], q_params = [Some '':k''], q_readonly = False, q_rows = []\<rparr>"

definition toy_handle :: "string list list \<Rightarrow> toy_stmt" where
  "toy_handle rows = \<lparr>bound = [], pending = rows, current = None\<rparr>"

definition toy_argv :: "string list" where
  "toy_argv = [''statement'', ''main'', ''x'', ''(SELECT v FROM t WHERE k = :k)'']"

definition memory_ok :: host_memory where
  "memory_ok = \<lparr>vtab_malloc_ok = True, sql_mprintf_ok = True, err_mprintf_ok = True, str_ok = True\<rparr>"

text \<open>
  A host that, like the real one, refuses a declared schema in which a column name
  occurs twice. \<open>quoted_names\<close> collects what stands between single quotes in the
  schema text, the flag telling whether the scan is inside a name and \<open>acc\<close> holding
  the name read so far in reverse. The query \<^verbatim>\<open>SELECT k, v FROM t WHERE k = :k\<close> has a
  result column and a parameter of the same name.
\<close>

fun quoted_names :: "string \<Rightarrow> bool \<Rightarrow> string \<Rightarrow> string list" where
  "quoted_names [] inside acc = []"
| "quoted_names (c # cs) inside acc =
     (if c = CHR 0x27
      then (if inside then rev acc # quoted_names cs False [] else quoted_names cs True [])
      else quoted_names cs inside (if inside then c # acc else acc))"

definition strict_api :: "toy_query \<Rightarrow> (toy_stmt, string) sqlite3_api" where
  "strict_api q =
     (toy_api q)
       \<lparr>sqlite3_declare_vtab :=
          (\<lambda>z. if distinct (quoted_names z False []) then SQLITE_OK else SQLITE_ERROR),
        sqlite3_errmsg := ''duplicate column name''\<rparr>"

definition toy_dup :: toy_query where
  "toy_dup =
     \<lparr>q_columns = [(Some ''k'', Some ''INT''), (Some ''v'', Some ''TEXT'')],
      q_params = [Some '':k''], q_readonly = True, q_rows = []\<rparr>"

definition dup_argv :: "string list" where
  "dup_argv = [''statement'', ''main'', ''x'', ''(SELECT k, v FROM t WHERE k = :k)'']"

section \<open>Properties of the planner\<close>

subsection \<open>The first loop\<close>

lemma scan_constraints_fst:
  "fst (scan_constraints nout cs i st) = (\<forall>c\<in>set cs. on_hidden nout c \<longrightarrow> usable_eq c)"
  by (induction cs arbitrary: i st) (auto simp: Let_def on_hidden_def usable_eq_def)

lemma scan_constraints_length:
  "length (usage (snd (scan_constraints nout cs i st))) = length (usage st)"
  by (induction cs arbitrary: i st) (auto simp: Let_def)

lemma scan_constraints_out_constraints:
  "\<forall>c\<in>set cs. on_hidden nout c \<longrightarrow> usable_eq c \<Longrightarrow>
   out_constraints (snd (scan_constraints nout cs i st)) = out_constraints st + int (length (hidden_cols nout cs))"
  by (induction cs arbitrary: i st) (auto simp: Let_def on_hidden_def usable_eq_def hidden_cols_def)

lemma scan_constraints_col_max_ge:
  "\<forall>c\<in>set cs. on_hidden nout c \<longrightarrow> usable_eq c \<Longrightarrow>
   col_max st \<le> col_max (snd (scan_constraints nout cs i st)) \<and>
   (\<forall>h\<in>set (hidden_cols nout cs). h + 1 \<le> col_max (snd (scan_constraints nout cs i st)))"
proof (induction cs arbitrary: i st)
  case Nil
  then show ?case by (simp add: hidden_cols_def)
next
  case (Cons c cs)
  show ?case
  proof (cases "on_hidden nout c")
    case False
    then show ?thesis using Cons by (simp add: on_hidden_def hidden_cols_def)
  next
    case True
    have ue: "usable_eq c" using Cons.prems True by simp
    have hc: "hidden_cols nout (c # cs) = (iColumn c - nout) # hidden_cols nout cs"
      using True by (simp add: hidden_cols_def)
    define st' where "st' = \<lparr>col_max = (if iColumn c - nout + 1 > col_max st then iColumn c - nout + 1 else col_max st),
       used_cols = (if iColumn c - nout < 64 then used_cols st OR push_bit (nat (iColumn c - nout)) 1 else used_cols st),
       out_constraints = out_constraints st + 1,
       usage = (usage st)[i := (usage st ! i)\<lparr>argvIndex := iColumn c - nout + 1, omit := 1\<rparr>]\<rparr>"
    have step: "scan_constraints nout (c # cs) i st = scan_constraints nout cs (Suc i) st'"
      using True ue by (simp add: Let_def on_hidden_def usable_eq_def st'_def)
    have ih: "col_max st' \<le> col_max (snd (scan_constraints nout cs (Suc i) st')) \<and>
       (\<forall>h\<in>set (hidden_cols nout cs). h + 1 \<le> col_max (snd (scan_constraints nout cs (Suc i) st')))"
      using Cons.IH [where i = "Suc i" and st = st'] Cons.prems by simp
    have a: "col_max st \<le> col_max st'" "iColumn c - nout + 1 \<le> col_max st'"
      by (simp_all add: st'_def)
    show ?thesis unfolding step hc using ih a by auto
  qed
qed

lemma scan_constraints_col_max_attained:
  "\<forall>c\<in>set cs. on_hidden nout c \<longrightarrow> usable_eq c \<Longrightarrow>
   col_max (snd (scan_constraints nout cs i st)) = col_max st \<or>
   (\<exists>h\<in>set (hidden_cols nout cs). col_max (snd (scan_constraints nout cs i st)) = h + 1)"
proof (induction cs arbitrary: i st)
  case Nil
  then show ?case by (simp add: hidden_cols_def)
next
  case (Cons c cs)
  show ?case
  proof (cases "on_hidden nout c")
    case False
    then show ?thesis using Cons by (simp add: on_hidden_def hidden_cols_def)
  next
    case True
    have ue: "usable_eq c" using Cons.prems True by simp
    have hc: "hidden_cols nout (c # cs) = (iColumn c - nout) # hidden_cols nout cs"
      using True by (simp add: hidden_cols_def)
    define st' where "st' = \<lparr>col_max = (if iColumn c - nout + 1 > col_max st then iColumn c - nout + 1 else col_max st),
       used_cols = (if iColumn c - nout < 64 then used_cols st OR push_bit (nat (iColumn c - nout)) 1 else used_cols st),
       out_constraints = out_constraints st + 1,
       usage = (usage st)[i := (usage st ! i)\<lparr>argvIndex := iColumn c - nout + 1, omit := 1\<rparr>]\<rparr>"
    have step: "scan_constraints nout (c # cs) i st = scan_constraints nout cs (Suc i) st'"
      using True ue by (simp add: Let_def on_hidden_def usable_eq_def st'_def)
    have ih: "col_max (snd (scan_constraints nout cs (Suc i) st')) = col_max st' \<or>
       (\<exists>h\<in>set (hidden_cols nout cs). col_max (snd (scan_constraints nout cs (Suc i) st')) = h + 1)"
      using Cons.IH [where i = "Suc i" and st = st'] Cons.prems by simp
    have a: "col_max st' = col_max st \<or> col_max st' = iColumn c - nout + 1"
      by (simp add: st'_def)
    show ?thesis unfolding step hc using ih a by auto
  qed
qed

lemma scan_constraints_used_cols:
  "\<forall>c\<in>set cs. on_hidden nout c \<longrightarrow> usable_eq c \<Longrightarrow>
   bit (used_cols (snd (scan_constraints nout cs i st))) k \<longleftrightarrow>
     bit (used_cols st) k \<or> (k < 64 \<and> int k \<in> set (hidden_cols nout cs))"
proof (induction cs arbitrary: i st)
  case Nil
  then show ?case by (simp add: hidden_cols_def)
next
  case (Cons c cs)
  show ?case
  proof (cases "on_hidden nout c")
    case False
    then show ?thesis using Cons by (simp add: on_hidden_def hidden_cols_def)
  next
    case True
    have ue: "usable_eq c" using Cons.prems True by simp
    have hc: "hidden_cols nout (c # cs) = (iColumn c - nout) # hidden_cols nout cs"
      using True by (simp add: hidden_cols_def)
    have nn: "0 \<le> iColumn c - nout" using True by (simp add: on_hidden_def)
    show ?thesis using Cons True ue nn
      by (auto simp: Let_def on_hidden_def usable_eq_def hc bit_simps)
  qed
qed

lemma scan_constraints_usage:
  "i + length cs \<le> length (usage st) \<Longrightarrow> j < length (usage st) \<Longrightarrow>
   \<forall>c\<in>set cs. on_hidden nout c \<longrightarrow> usable_eq c \<Longrightarrow>
   usage (snd (scan_constraints nout cs i st)) ! j =
     (if i \<le> j \<and> j < i + length cs \<and> on_hidden nout (cs ! (j - i))
      then \<lparr>argvIndex = iColumn (cs ! (j - i)) - nout + 1, omit = 1\<rparr>
      else usage st ! j)"
proof (induction cs arbitrary: i st)
  case Nil
  then show ?case by auto
next
  case (Cons c cs)
  show ?case
  proof (cases "on_hidden nout c")
    case False
    have "usage (snd (scan_constraints nout cs (Suc i) st)) ! j =
      (if Suc i \<le> j \<and> j < Suc i + length cs \<and> on_hidden nout (cs ! (j - Suc i))
       then \<lparr>argvIndex = iColumn (cs ! (j - Suc i)) - nout + 1, omit = 1\<rparr>
       else usage st ! j)"
      using Cons.IH [where i = "Suc i" and st = st] Cons.prems by simp
    then show ?thesis using False
      by (auto simp: on_hidden_def nth_Cons' Suc_diff_Suc not_less less_Suc_eq_le)
  next
    case True
    have ue: "usable_eq c" using Cons.prems True by simp
    define st' where "st' = \<lparr>col_max = (if iColumn c - nout + 1 > col_max st then iColumn c - nout + 1 else col_max st),
       used_cols = (if iColumn c - nout < 64 then used_cols st OR push_bit (nat (iColumn c - nout)) 1 else used_cols st),
       out_constraints = out_constraints st + 1,
       usage = (usage st)[i := (usage st ! i)\<lparr>argvIndex := iColumn c - nout + 1, omit := 1\<rparr>]\<rparr>"
    have step: "scan_constraints nout (c # cs) i st = scan_constraints nout cs (Suc i) st'"
      using True ue by (simp add: Let_def on_hidden_def usable_eq_def st'_def)
    have len: "length (usage st') = length (usage st)" by (simp add: st'_def)
    have ih: "usage (snd (scan_constraints nout cs (Suc i) st')) ! j =
      (if Suc i \<le> j \<and> j < Suc i + length cs \<and> on_hidden nout (cs ! (j - Suc i))
       then \<lparr>argvIndex = iColumn (cs ! (j - Suc i)) - nout + 1, omit = 1\<rparr>
       else usage st' ! j)"
      using Cons.IH [where i = "Suc i" and st = st'] Cons.prems len by simp
    have here: "usage st' ! j = (if j = i then \<lparr>argvIndex = iColumn c - nout + 1, omit = 1\<rparr> else usage st ! j)"
      using Cons.prems by (simp add: st'_def nth_list_update)
    show ?thesis unfolding step ih here using True
      by (auto simp: nth_Cons' Suc_diff_Suc not_less less_Suc_eq_le)
  qed
qed

lemma scan_constraints_outputs_kept:
  "j < length (usage st) \<Longrightarrow>
   \<not> (i \<le> j \<and> j < i + length cs \<and> on_hidden nout (cs ! (j - i))) \<Longrightarrow>
   usage (snd (scan_constraints nout cs i st)) ! j = usage st ! j"
proof (induction cs arbitrary: i st)
  case Nil
  then show ?case by simp
next
  case (Cons c cs)
  have nxt: "\<not> (Suc i \<le> j \<and> j < Suc i + length cs \<and> on_hidden nout (cs ! (j - Suc i)))"
    using Cons.prems(2) by (auto simp: nth_Cons' Suc_diff_Suc not_less less_Suc_eq_le)
  show ?case
  proof (cases "on_hidden nout c \<and> usable_eq c")
    case False
    then show ?thesis using Cons.IH [where i = "Suc i" and st = st] Cons.prems(1) nxt
      by (auto simp: on_hidden_def usable_eq_def)
  next
    case True
    define st' where "st' = \<lparr>col_max = (if iColumn c - nout + 1 > col_max st then iColumn c - nout + 1 else col_max st),
       used_cols = (if iColumn c - nout < 64 then used_cols st OR push_bit (nat (iColumn c - nout)) 1 else used_cols st),
       out_constraints = out_constraints st + 1,
       usage = (usage st)[i := (usage st ! i)\<lparr>argvIndex := iColumn c - nout + 1, omit := 1\<rparr>]\<rparr>"
    have step: "scan_constraints nout (c # cs) i st = scan_constraints nout cs (Suc i) st'"
      using True by (simp add: Let_def on_hidden_def usable_eq_def st'_def)
    have len: "length (usage st') = length (usage st)" by (simp add: st'_def)
    have ji: "j \<noteq> i" using Cons.prems(2) True by auto
    have here: "usage st' ! j = usage st ! j"
      using ji by (simp add: st'_def)
    show ?thesis unfolding step
      using Cons.IH [where i = "Suc i" and st = st'] Cons.prems(1) nxt len here by simp
  qed
qed

subsection \<open>The column mask and the second loop\<close>

lemma required_cols_mask:
  "0 \<le> cm \<Longrightarrow> cm \<le> 64 \<Longrightarrow>
   (if cm < 64 then push_bit (nat cm) 1 else 0) - 1 = (mask (nat cm) :: 64 word)"
proof (cases "cm < 64")
  case True
  then show ?thesis by (simp add: mask_eq_exp_minus_1)
next
  case False
  assume "0 \<le> cm" "cm \<le> 64"
  with False have cm: "nat cm = 64" by simp
  have "(0 :: 64 word) - 1 = mask 64"
    by (rule bit_eqI) (simp add: bit_simps)
  with False cm show ?thesis by simp
qed

lemma used_cols_contiguous:
  fixes w :: "64 word"
  assumes bits: "\<And>k. bit w k \<longleftrightarrow> k < 64 \<and> int k \<in> S"
    and nonneg: "\<And>h. h \<in> S \<Longrightarrow> 0 \<le> h \<and> h + 1 \<le> cm"
    and cm: "0 \<le> cm" "cm \<le> 64"
  shows "w = mask (nat cm) \<longleftrightarrow> S = {0..cm - 1}"
proof
  assume eq: "w = mask (nat cm)"
  show "S = {0..cm - 1}"
  proof (rule set_eqI)
    fix h
    show "h \<in> S \<longleftrightarrow> h \<in> {0..cm - 1}"
    proof
      assume "h \<in> S"
      then show "h \<in> {0..cm - 1}" using nonneg [of h] by simp
    next
      assume h: "h \<in> {0..cm - 1}"
      then have "nat h < nat cm" "nat h < 64" using cm by auto
      then have "bit w (nat h)" unfolding eq by (simp add: bit_simps)
      then have "int (nat h) \<in> S" using bits by simp
      then show "h \<in> S" using h by simp
    qed
  qed
next
  assume S: "S = {0..cm - 1}"
  show "w = mask (nat cm)"
  proof (rule bit_eqI)
    fix k
    show "bit w k \<longleftrightarrow> bit (mask (nat cm) :: 64 word) k"
      using cm by (auto simp: bits S bit_simps)
  qed
qed

lemma filter_take_Suc:
  "k < length us \<Longrightarrow> filter P (take (Suc k) us) = filter P (take k us) @ (if P (us ! k) then [us ! k] else [])"
  by (simp add: take_Suc_conv_app_nth)

lemma length_filter_take_le:
  "length (filter P (take k us)) \<le> length (filter P us)"
proof -
  have "filter P us = filter P (take k us) @ filter P (drop k us)"
    by (metis append_take_drop_id filter_append)
  then show ?thesis by simp
qed

lemma remap_prefix:
  assumes "k \<le> length us" and "length (filter nz us) \<le> length colmap"
  shows "fold remap_step [0..<k] (0, colmap, us) =
    (int (length (filter nz (take k us))),
     map argvIndex (filter nz (take k us)) @ drop (length (filter nz (take k us))) colmap,
     map (\<lambda>j. if j < k \<and> nz (us ! j)
               then (us ! j)\<lparr>argvIndex := int (length (filter nz (take (Suc j) us)))\<rparr>
               else us ! j) [0..<length us])"
  using assms(1)
proof (induction k)
  case 0
  then show ?case by (simp add: map_nth)
next
  case (Suc k)
  let ?vals = "filter nz (take k us)"
  let ?m = "length ?vals"
  let ?us = "map (\<lambda>j. if j < k \<and> nz (us ! j)
               then (us ! j)\<lparr>argvIndex := int (length (filter nz (take (Suc j) us)))\<rparr>
               else us ! j) [0..<length us]"
  have k: "k < length us" using Suc.prems by simp
  have ih: "fold remap_step [0..<k] (0, colmap, us) =
      (int ?m, map argvIndex ?vals @ drop ?m colmap, ?us)"
    using Suc.IH k by simp
  have usk: "?us ! k = us ! k" using k by simp
  have unf: "fold remap_step [0..<Suc k] (0, colmap, us) =
      remap_step k (fold remap_step [0..<k] (0, colmap, us))"
    by simp
  show ?case
  proof (cases "nz (us ! k)")
    case False
    have f: "filter nz (take (Suc k) us) = ?vals" using k False by (simp add: filter_take_Suc)
    have st: "remap_step k (int ?m, map argvIndex ?vals @ drop ?m colmap, ?us)
        = (int ?m, map argvIndex ?vals @ drop ?m colmap, ?us)"
      using False usk by (simp add: remap_step_def nz_def)
    have us': "?us = map (\<lambda>j. if j < Suc k \<and> nz (us ! j)
               then (us ! j)\<lparr>argvIndex := int (length (filter nz (take (Suc j) us)))\<rparr>
               else us ! j) [0..<length us]"
      using False by (auto simp: less_Suc_eq)
    show ?thesis
      by (simp only: unf ih st f) (simp only: us')
  next
    case True
    have f: "filter nz (take (Suc k) us) = ?vals @ [us ! k]" using k True by (simp add: filter_take_Suc)
    have "Suc ?m \<le> length (filter nz us)"
      using length_filter_take_le [of nz "Suc k" us] f by simp
    then have m: "?m < length colmap" using assms(2) by simp
    have cm: "(map argvIndex ?vals @ drop ?m colmap)[?m := argvIndex (us ! k)]
        = map argvIndex (?vals @ [us ! k]) @ drop (length (?vals @ [us ! k])) colmap"
    proof -
      have d: "drop ?m colmap = colmap ! ?m # drop (Suc ?m) colmap"
        using m by (simp add: Cons_nth_drop_Suc)
      show ?thesis by (subst d) (simp add: list_update_append)
    qed
    have us': "?us[k := (us ! k)\<lparr>argvIndex := int ?m + 1\<rparr>] =
        map (\<lambda>j. if j < Suc k \<and> nz (us ! j)
               then (us ! j)\<lparr>argvIndex := int (length (filter nz (take (Suc j) us)))\<rparr>
               else us ! j) [0..<length us]"
      using k True f by (auto intro!: nth_equalityI simp: nth_list_update less_Suc_eq)
    have st: "remap_step k (int ?m, map argvIndex ?vals @ drop ?m colmap, ?us)
        = (int ?m + 1, (map argvIndex ?vals @ drop ?m colmap)[?m := argvIndex (us ! k)],
           ?us[k := (us ! k)\<lparr>argvIndex := int ?m + 1\<rparr>])"
      using True usk by (simp add: remap_step_def nz_def)
    have len: "int ?m + 1 = int (length (?vals @ [us ! k]))" by simp
    show ?thesis
      by (simp only: unf ih st f cm us') (simp only: len)
  qed
qed

lemma hidden_cols_nonneg: "h \<in> set (hidden_cols nout cs) \<Longrightarrow> 0 \<le> h"
  by (auto simp: hidden_cols_def on_hidden_def)

lemma scan_initial_usage:
  assumes feas: "\<forall>c\<in>set cs. on_hidden nout c \<longrightarrow> usable_eq c"
  shows "usage (snd (scan_constraints nout cs 0
            (plan_start (replicate (length cs) \<lparr>argvIndex = 0, omit = 0\<rparr>))))
         = map (identity_usage nout) cs"
proof (rule nth_equalityI)
  show "length (usage (snd (scan_constraints nout cs 0
            (plan_start (replicate (length cs) \<lparr>argvIndex = 0, omit = 0\<rparr>)))))
        = length (map (identity_usage nout) cs)"
    by (simp add: scan_constraints_length plan_start_def)
next
  fix j
  assume "j < length (usage (snd (scan_constraints nout cs 0
            (plan_start (replicate (length cs) \<lparr>argvIndex = 0, omit = 0\<rparr>)))))"
  then have j: "j < length cs" by (simp add: scan_constraints_length plan_start_def)
  show "usage (snd (scan_constraints nout cs 0
            (plan_start (replicate (length cs) \<lparr>argvIndex = 0, omit = 0\<rparr>)))) ! j
        = map (identity_usage nout) cs ! j"
    using j feas
      scan_constraints_usage [of 0 cs "plan_start (replicate (length cs) \<lparr>argvIndex = 0, omit = 0\<rparr>)" j nout]
    by (simp add: plan_start_def identity_usage_def)
qed

lemma scan_initial_decision:
  assumes feas: "\<forall>c\<in>set cs. on_hidden nout c \<longrightarrow> usable_eq c"
    and st: "st = snd (scan_constraints nout cs 0 (plan_start us))"
  shows "(out_constraints st = 0 \<or>
          (col_max st \<le> 64 \<and>
           used_cols st = (if col_max st < 64 then push_bit (nat (col_max st)) 1 else 0) - 1))
         \<longleftrightarrow> (\<exists>max_c<64. set (hidden_cols nout cs) = {0..max_c})"
proof -
  let ?hs = "hidden_cols nout cs"
  have oc: "out_constraints st = int (length ?hs)"
    using scan_constraints_out_constraints [OF feas, of 0 "plan_start us"] st
    by (simp add: plan_start_def)
  have ge: "0 \<le> col_max st" "\<And>h. h \<in> set ?hs \<Longrightarrow> h + 1 \<le> col_max st"
    using scan_constraints_col_max_ge [OF feas, of "plan_start us" 0] st
    by (simp_all add: plan_start_def)
  have att: "col_max st = 0 \<or> (\<exists>h\<in>set ?hs. col_max st = h + 1)"
    using scan_constraints_col_max_attained [OF feas, of 0 "plan_start us"] st
    by (simp add: plan_start_def)
  have bits: "\<And>k. bit (used_cols st) k \<longleftrightarrow> k < 64 \<and> int k \<in> set ?hs"
    using scan_constraints_used_cols [OF feas, of 0 "plan_start us"] st
    by (simp add: plan_start_def)
  have nn: "\<And>h. h \<in> set ?hs \<Longrightarrow> 0 \<le> h \<and> h + 1 \<le> col_max st"
    using ge(2) hidden_cols_nonneg by blast
  show ?thesis
  proof
    assume "out_constraints st = 0 \<or>
          (col_max st \<le> 64 \<and>
           used_cols st = (if col_max st < 64 then push_bit (nat (col_max st)) 1 else 0) - 1)"
    then show "\<exists>max_c<64. set ?hs = {0..max_c}"
    proof
      assume "out_constraints st = 0"
      then have "set ?hs = {0..- 1}" using oc by simp
      then show ?thesis by (intro exI [of _ "- 1"]) simp
    next
      assume a: "col_max st \<le> 64 \<and>
           used_cols st = (if col_max st < 64 then push_bit (nat (col_max st)) 1 else 0) - 1"
      then have "used_cols st = mask (nat (col_max st))"
        using required_cols_mask [OF ge(1)] by simp
      then have "set ?hs = {0..col_max st - 1}"
        using used_cols_contiguous [of "used_cols st" "set ?hs" "col_max st", OF bits nn ge(1)] a
        by simp
      then show ?thesis using a by (intro exI [of _ "col_max st - 1"]) simp
    qed
  next
    assume "\<exists>max_c<64. set ?hs = {0..max_c}"
    then obtain m where m: "m < 64" "set ?hs = {0..m}" by blast
    show "out_constraints st = 0 \<or>
          (col_max st \<le> 64 \<and>
           used_cols st = (if col_max st < 64 then push_bit (nat (col_max st)) 1 else 0) - 1)"
    proof (cases "?hs = []")
      case True
      then show ?thesis using oc by simp
    next
      case False
      then have m0: "0 \<le> m" using m(2) by (cases "0 \<le> m") auto
      then have "m \<in> set ?hs" using m(2) by simp
      then have lo: "m + 1 \<le> col_max st" using ge(2) by simp
      then obtain h where "h \<in> set ?hs" "col_max st = h + 1" using att m0 by auto
      then have "col_max st \<le> m + 1" using m(2) by simp
      with lo have cm: "col_max st = m + 1" by simp
      then have S: "set ?hs = {0..col_max st - 1}" using m(2) by simp
      have le: "col_max st \<le> 64" using cm m(1) by simp
      have "used_cols st = mask (nat (col_max st))"
        using used_cols_contiguous [of "used_cols st" "set ?hs" "col_max st", OF bits nn ge(1) le] S
        by simp
      then show ?thesis using required_cols_mask [OF ge(1) le] le by simp
    qed
  qed
qed

lemma nz_identity_usage: "nz (identity_usage nout c) = on_hidden nout c"
  by (simp add: nz_def identity_usage_def on_hidden_def)

lemma filter_nz_identity:
  "filter nz (map (identity_usage nout) cs) = map (identity_usage nout) (filter (on_hidden nout) cs)"
  by (induction cs) (simp_all add: nz_identity_usage)

lemma remap_identity_usage:
  "remap_constraints (length cs) (replicate (length (hidden_cols nout cs)) 0)
       (map (identity_usage nout) cs)
   = (int (length (hidden_cols nout cs)), map (\<lambda>h. h + 1) (hidden_cols nout cs),
      map (dense_usage nout cs) [0..<length cs])"
proof -
  let ?us = "map (identity_usage nout) cs"
  let ?cm = "replicate (length (hidden_cols nout cs)) (0::int)"
  have len: "length (filter nz ?us) = length (hidden_cols nout cs)"
    by (simp add: filter_nz_identity hidden_cols_def)
  have vals: "map argvIndex (filter nz ?us) = map (\<lambda>h. h + 1) (hidden_cols nout cs)"
    by (simp add: filter_nz_identity hidden_cols_def identity_usage_def)
  have us: "map (\<lambda>j. if j < length ?us \<and> nz (?us ! j)
               then (?us ! j)\<lparr>argvIndex := int (length (filter nz (take (Suc j) ?us)))\<rparr>
               else ?us ! j) [0..<length ?us]
        = map (dense_usage nout cs) [0..<length cs]"
  proof (rule nth_equalityI)
    show "length (map (\<lambda>j. if j < length ?us \<and> nz (?us ! j)
               then (?us ! j)\<lparr>argvIndex := int (length (filter nz (take (Suc j) ?us)))\<rparr>
               else ?us ! j) [0..<length ?us]) = length (map (dense_usage nout cs) [0..<length cs])"
      by simp
  next
    fix j
    assume "j < length (map (\<lambda>j. if j < length ?us \<and> nz (?us ! j)
               then (?us ! j)\<lparr>argvIndex := int (length (filter nz (take (Suc j) ?us)))\<rparr>
               else ?us ! j) [0..<length ?us])"
    then have j: "j < length cs" by simp
    have t: "filter nz (take (Suc j) ?us) = map (identity_usage nout) (filter (on_hidden nout) (take (Suc j) cs))"
      by (simp only: take_map filter_nz_identity)
    show "map (\<lambda>j. if j < length ?us \<and> nz (?us ! j)
               then (?us ! j)\<lparr>argvIndex := int (length (filter nz (take (Suc j) ?us)))\<rparr>
               else ?us ! j) [0..<length ?us] ! j = map (dense_usage nout cs) [0..<length cs] ! j"
      using j by (simp add: t nz_identity_usage dense_usage_def) (simp add: identity_usage_def)
  qed
  have c2: "length (filter nz ?us) \<le> length ?cm" unfolding len by simp
  have tk: "take (length ?us) ?us = ?us" by simp
  have dr: "drop (length (filter nz ?us)) ?cm = []" unfolding len by simp
  have main: "fold remap_step [0..<length ?us] (0, ?cm, ?us) =
    (int (length (filter nz ?us)),
     map argvIndex (filter nz ?us) @ drop (length (filter nz ?us)) ?cm,
     map (\<lambda>j. if j < length ?us \<and> nz (?us ! j)
               then (?us ! j)\<lparr>argvIndex := int (length (filter nz (take (Suc j) ?us)))\<rparr>
               else ?us ! j) [0..<length ?us])"
    using remap_prefix [OF le_refl c2] unfolding tk .
  have "remap_constraints (length cs) ?cm ?us = fold remap_step [0..<length ?us] (0, ?cm, ?us)"
    by (simp add: remap_constraints_def)
  also have "\<dots> = (int (length (hidden_cols nout cs)), map (\<lambda>h. h + 1) (hidden_cols nout cs),
      map (dense_usage nout cs) [0..<length cs])"
    by (simp only: main len vals us) simp
  finally show ?thesis .
qed

subsection \<open>What the planner returns\<close>

lemma best_index_infeasible:
  assumes "\<not> (\<forall>c\<in>set (aConstraint info). on_hidden (num_outputs vt) c \<longrightarrow> usable_eq c)"
  shows "fst (statement_vtab_best_index vt ok info) = SQLITE_CONSTRAINT"
    and "idxStr (snd (statement_vtab_best_index vt ok info)) = idxStr info"
    and "aConstraintUsage (snd (statement_vtab_best_index vt ok info)) =
           usage (snd (scan_constraints (num_outputs vt) (aConstraint info) 0
                    (plan_start (aConstraintUsage info))))"
proof -
  obtain f st where sc: "scan_constraints (num_outputs vt) (aConstraint info) 0
      (plan_start (aConstraintUsage info)) = (f, st)"
    by (cases "scan_constraints (num_outputs vt) (aConstraint info) 0
      (plan_start (aConstraintUsage info))")
  have "\<not> f"
    using assms scan_constraints_fst [of "num_outputs vt" "aConstraint info" 0
        "plan_start (aConstraintUsage info)"] sc by simp
  then show "fst (statement_vtab_best_index vt ok info) = SQLITE_CONSTRAINT"
    and "idxStr (snd (statement_vtab_best_index vt ok info)) = idxStr info"
    and "aConstraintUsage (snd (statement_vtab_best_index vt ok info)) =
           usage (snd (scan_constraints (num_outputs vt) (aConstraint info) 0
                    (plan_start (aConstraintUsage info))))"
    by (simp_all add: statement_vtab_best_index_def sc)
qed

lemma best_index_feasible:
  assumes init: "host_initialised info"
    and feas: "\<forall>c\<in>set (aConstraint info). on_hidden (num_outputs vt) c \<longrightarrow> usable_eq c"
  shows "statement_vtab_best_index vt ok info =
    (if \<exists>max_c<64. set (hidden_cols (num_outputs vt) (aConstraint info)) = {0..max_c}
     then (SQLITE_OK,
           info\<lparr>orderByConsumed := False, estimatedCost := 1, estimatedRows := 1,
                aConstraintUsage := map (identity_usage (num_outputs vt)) (aConstraint info)\<rparr>)
     else if \<not> ok
     then (SQLITE_NOMEM,
           info\<lparr>orderByConsumed := False, estimatedCost := 1, estimatedRows := 1,
                aConstraintUsage := map (identity_usage (num_outputs vt)) (aConstraint info)\<rparr>)
     else (SQLITE_OK,
           info\<lparr>orderByConsumed := False, estimatedCost := 1, estimatedRows := 1,
                aConstraintUsage := map (dense_usage (num_outputs vt) (aConstraint info))
                                      [0..<length (aConstraint info)],
                idxStr := Some (map (\<lambda>h. h + 1) (hidden_cols (num_outputs vt) (aConstraint info))),
                needToFreeIdxStr := True\<rparr>))"
proof -
  let ?nout = "num_outputs vt"
  let ?cs = "aConstraint info"
  let ?zero = "replicate (length ?cs) \<lparr>argvIndex = 0, omit = 0\<rparr>"
  have us0: "aConstraintUsage info = ?zero" using init by (simp add: host_initialised_def)
  obtain f st where sc: "scan_constraints ?nout ?cs 0 (plan_start ?zero) = (f, st)"
    by (cases "scan_constraints ?nout ?cs 0 (plan_start ?zero)")
  have f: "f" using feas scan_constraints_fst [of ?nout ?cs 0 "plan_start ?zero"] sc by simp
  have st: "st = snd (scan_constraints ?nout ?cs 0 (plan_start ?zero))" using sc by simp
  have us: "usage st = map (identity_usage ?nout) ?cs"
    using scan_initial_usage [OF feas] st by simp
  have oc: "out_constraints st = int (length (hidden_cols ?nout ?cs))"
    using scan_constraints_out_constraints [OF feas, of 0 "plan_start ?zero"] st
    by (simp add: plan_start_def)
  define D where "D \<longleftrightarrow> (\<exists>max_c<64. set (hidden_cols ?nout ?cs) = {0..max_c})"
  have dec: "(out_constraints st = 0 \<or>
          (col_max st \<le> 64 \<and>
           used_cols st = (if col_max st < 64 then push_bit (nat (col_max st)) 1 else 0) - 1))
         \<longleftrightarrow> D"
    unfolding D_def by (rule scan_initial_decision [OF feas st])
  have rm: "remap_constraints (length ?cs) (replicate (nat (out_constraints st)) 0)
       (map (identity_usage ?nout) ?cs)
   = (int (length (hidden_cols ?nout ?cs)), map (\<lambda>h. h + 1) (hidden_cols ?nout ?cs),
      map (dense_usage ?nout ?cs) [0..<length ?cs])"
    using remap_identity_usage [of ?cs ?nout] oc by simp
  show ?thesis
    unfolding D_def [symmetric]
  proof (cases D)
    case True
    then show "statement_vtab_best_index vt ok info =
    (if D
     then (SQLITE_OK,
           info\<lparr>orderByConsumed := False, estimatedCost := 1, estimatedRows := 1,
                aConstraintUsage := map (identity_usage (num_outputs vt)) (aConstraint info)\<rparr>)
     else if \<not> ok
     then (SQLITE_NOMEM,
           info\<lparr>orderByConsumed := False, estimatedCost := 1, estimatedRows := 1,
                aConstraintUsage := map (identity_usage (num_outputs vt)) (aConstraint info)\<rparr>)
     else (SQLITE_OK,
           info\<lparr>orderByConsumed := False, estimatedCost := 1, estimatedRows := 1,
                aConstraintUsage := map (dense_usage (num_outputs vt) (aConstraint info))
                                      [0..<length (aConstraint info)],
                idxStr := Some (map (\<lambda>h. h + 1) (hidden_cols (num_outputs vt) (aConstraint info))),
                needToFreeIdxStr := True\<rparr>))" using dec
      by (simp add: statement_vtab_best_index_def us0 sc f us Let_def del: push_bit_of_1)
  next
    case False
    then show "statement_vtab_best_index vt ok info =
    (if D
     then (SQLITE_OK,
           info\<lparr>orderByConsumed := False, estimatedCost := 1, estimatedRows := 1,
                aConstraintUsage := map (identity_usage (num_outputs vt)) (aConstraint info)\<rparr>)
     else if \<not> ok
     then (SQLITE_NOMEM,
           info\<lparr>orderByConsumed := False, estimatedCost := 1, estimatedRows := 1,
                aConstraintUsage := map (identity_usage (num_outputs vt)) (aConstraint info)\<rparr>)
     else (SQLITE_OK,
           info\<lparr>orderByConsumed := False, estimatedCost := 1, estimatedRows := 1,
                aConstraintUsage := map (dense_usage (num_outputs vt) (aConstraint info))
                                      [0..<length (aConstraint info)],
                idxStr := Some (map (\<lambda>h. h + 1) (hidden_cols (num_outputs vt) (aConstraint info))),
                needToFreeIdxStr := True\<rparr>))" using dec
      by (auto simp add: statement_vtab_best_index_def us0 sc f us rm Let_def simp del: push_bit_of_1 split: if_splits)
  qed
qed

lemmas rc_defs = SQLITE_OK_def SQLITE_ERROR_def SQLITE_NOMEM_def SQLITE_CONSTRAINT_def
  SQLITE_MISUSE_def SQLITE_ROW_def SQLITE_DONE_def SQLITE_INDEX_CONSTRAINT_EQ_def

lemmas plan_eval = statement_vtab_best_index_def plan_start_def remap_constraints_def
  remap_step_def host_request_def eq_on_def example_vtab_def on_hidden_def usable_eq_def
  hidden_cols_def host_initialised_def identity_usage_def dense_usage_def without_outputs_def
  Let_def upt_rec

text \<open>
  Claim C1. Whenever some predicate of the request is on a hidden input column and is
  either not usable or has an operator other than equality, the planner returns
  \<^verbatim>\<open>SQLITE_CONSTRAINT\<close>: the whole plan is infeasible, whatever the other predicates of
  the request are and whatever the request holds otherwise.
\<close>

theorem plan_infeasible:
  assumes "c \<in> set (aConstraint info)" and "on_hidden (num_outputs vt) c"
    and "usable c = 0 \<or> op c \<noteq> SQLITE_INDEX_CONSTRAINT_EQ"
  shows "fst (statement_vtab_best_index vt ok info) = SQLITE_CONSTRAINT"
proof -
  have "\<not> (\<forall>c\<in>set (aConstraint info). on_hidden (num_outputs vt) c \<longrightarrow> usable_eq c)"
    using assms by (auto simp: usable_eq_def)
  then show ?thesis by (rule best_index_infeasible(1))
qed

text \<open>
  A request with usable equalities on hidden columns 0 and 2 and a greater-than
  predicate (operator 4) on hidden column 1.
\<close>

theorem plan_infeasible_witness:
  "\<lparr>iColumn = 2, op = 4, usable = 1\<rparr>
      \<in> set (aConstraint (host_request [eq_on 1, \<lparr>iColumn = 2, op = 4, usable = 1\<rparr>, eq_on 3]))
   \<and> on_hidden (num_outputs example_vtab) \<lparr>iColumn = 2, op = 4, usable = 1\<rparr>
   \<and> op \<lparr>iColumn = 2, op = 4, usable = 1\<rparr> \<noteq> SQLITE_INDEX_CONSTRAINT_EQ
   \<and> fst (statement_vtab_best_index example_vtab True
             (host_request [eq_on 1, \<lparr>iColumn = 2, op = 4, usable = 1\<rparr>, eq_on 3]))
       = SQLITE_CONSTRAINT"
  using plan_infeasible [of "\<lparr>iColumn = 2, op = 4, usable = 1\<rparr>"
      "host_request [eq_on 1, \<lparr>iColumn = 2, op = 4, usable = 1\<rparr>, eq_on 3]" example_vtab True]
  by (simp add: host_request_def example_vtab_def on_hidden_def rc_defs)

text \<open>
  Claim C2. Let every predicate on a hidden column be a usable equality, and let the
  hidden-column indices matched be exactly the range \<open>0..max_c\<close> with \<open>max_c < 64\<close>,
  that is at most 64 columns (an empty range, \<open>max_c = -1\<close>, when no predicate is on a
  hidden column). Then the planner succeeds with the identity order: the predicate on
  hidden column \<open>c\<close> gets argument position \<open>c + 1\<close> and is marked consumed, the other
  entries stay zero, and no index map is attached. In particular, with no predicate on
  a hidden column every argument position stays 0: no argument is bound.
\<close>

theorem plan_identity_order:
  assumes "host_initialised info"
    and "\<forall>c\<in>set (aConstraint info). on_hidden (num_outputs vt) c \<longrightarrow> usable_eq c"
    and "set (hidden_cols (num_outputs vt) (aConstraint info)) = {0..max_c}"
    and "max_c < 64"
  shows "fst (statement_vtab_best_index vt ok info) = SQLITE_OK
    \<and> aConstraintUsage (snd (statement_vtab_best_index vt ok info))
        = map (identity_usage (num_outputs vt)) (aConstraint info)
    \<and> idxStr (snd (statement_vtab_best_index vt ok info)) = None
    \<and> \<not> needToFreeIdxStr (snd (statement_vtab_best_index vt ok info))
    \<and> (hidden_cols (num_outputs vt) (aConstraint info) = [] \<longrightarrow>
         (\<forall>u\<in>set (aConstraintUsage (snd (statement_vtab_best_index vt ok info))).
            argvIndex u = 0))"
proof -
  have D: "\<exists>max_c<64. set (hidden_cols (num_outputs vt) (aConstraint info)) = {0..max_c}"
    using assms(3,4) by blast
  have r: "statement_vtab_best_index vt ok info =
      (SQLITE_OK,
       info\<lparr>orderByConsumed := False, estimatedCost := 1, estimatedRows := 1,
            aConstraintUsage := map (identity_usage (num_outputs vt)) (aConstraint info)\<rparr>)"
    using best_index_feasible [OF assms(1,2), of ok] D by simp
  have none: "idxStr info = None" "\<not> needToFreeIdxStr info"
    using assms(1) by (simp_all add: host_initialised_def)
  have empty: "hidden_cols (num_outputs vt) (aConstraint info) = [] \<Longrightarrow>
      \<forall>c\<in>set (aConstraint info). argvIndex (identity_usage (num_outputs vt) c) = 0"
    by (auto simp: hidden_cols_def identity_usage_def filter_empty_conv)
  show ?thesis using none empty by (simp add: r)
qed

text \<open>
  Hidden columns 1, 0 and 2 constrained next to a predicate on the output column; and a
  request whose only predicate is on the output column.
\<close>

theorem plan_identity_order_witness:
  "host_initialised (host_request [eq_on 2, eq_on 0, eq_on 1, eq_on 3])
   \<and> set (hidden_cols (num_outputs example_vtab)
            (aConstraint (host_request [eq_on 2, eq_on 0, eq_on 1, eq_on 3]))) = {0..2}
   \<and> fst (statement_vtab_best_index example_vtab True
            (host_request [eq_on 2, eq_on 0, eq_on 1, eq_on 3])) = SQLITE_OK
   \<and> map argvIndex (aConstraintUsage (snd (statement_vtab_best_index example_vtab True
            (host_request [eq_on 2, eq_on 0, eq_on 1, eq_on 3])))) = [2, 0, 1, 3]
   \<and> idxStr (snd (statement_vtab_best_index example_vtab True
            (host_request [eq_on 2, eq_on 0, eq_on 1, eq_on 3]))) = None
   \<and> host_initialised (host_request [eq_on 0])
   \<and> hidden_cols (num_outputs example_vtab) (aConstraint (host_request [eq_on 0])) = []
   \<and> fst (statement_vtab_best_index example_vtab True (host_request [eq_on 0])) = SQLITE_OK
   \<and> map argvIndex (aConstraintUsage (snd (statement_vtab_best_index example_vtab True
            (host_request [eq_on 0])))) = [0]"
proof -
  have s: "{0..2::int} = {0, 1, 2}" "{0..- 1::int} = {}" by auto
  have a1: "host_initialised (host_request [eq_on 2, eq_on 0, eq_on 1, eq_on 3])"
    by (simp add: host_initialised_def host_request_def)
  have a2: "\<forall>c\<in>set (aConstraint (host_request [eq_on 2, eq_on 0, eq_on 1, eq_on 3])).
      on_hidden (num_outputs example_vtab) c \<longrightarrow> usable_eq c"
    by (simp add: host_request_def eq_on_def usable_eq_def rc_defs)
  have a3: "set (hidden_cols (num_outputs example_vtab)
            (aConstraint (host_request [eq_on 2, eq_on 0, eq_on 1, eq_on 3]))) = {0..2}"
    unfolding s by (auto simp: host_request_def eq_on_def hidden_cols_def on_hidden_def example_vtab_def)
  have b1: "host_initialised (host_request [eq_on 0])"
    by (simp add: host_initialised_def host_request_def)
  have b2: "\<forall>c\<in>set (aConstraint (host_request [eq_on 0])).
      on_hidden (num_outputs example_vtab) c \<longrightarrow> usable_eq c"
    by (simp add: host_request_def eq_on_def usable_eq_def rc_defs)
  have b3: "set (hidden_cols (num_outputs example_vtab) (aConstraint (host_request [eq_on 0]))) = {0..- 1}"
    unfolding s by (simp add: host_request_def eq_on_def hidden_cols_def on_hidden_def example_vtab_def)
  show ?thesis
    using plan_identity_order [OF a1 a2 a3, of True] plan_identity_order [OF b1 b2 b3, of True] a1 a3 b1
    by (simp add: host_request_def eq_on_def hidden_cols_def on_hidden_def example_vtab_def
        identity_usage_def)
qed

text \<open>
  Claim C3, as amended. Let every predicate on a hidden column be a usable equality,
  let the hidden-column indices matched not be exactly a range \<open>0..max_c\<close> of at most
  64 columns, and let the allocation of the map succeed. Then the planner succeeds and
  attaches an index map with one entry per consumed predicate: in request order, entry
  \<open>k\<close> is the parameter index \<open>c + 1\<close> of the \<open>k\<close>-th consumed predicate, which in turn
  gets argument position \<open>k\<close>, counted from 1. The order in which the predicates arrive
  plays no part in the choice.
\<close>

theorem plan_index_map:
  assumes "host_initialised info"
    and "\<forall>c\<in>set (aConstraint info). on_hidden (num_outputs vt) c \<longrightarrow> usable_eq c"
    and "\<not> (\<exists>max_c<64. set (hidden_cols (num_outputs vt) (aConstraint info)) = {0..max_c})"
    and "malloc_ok"
  shows "fst (statement_vtab_best_index vt malloc_ok info) = SQLITE_OK
    \<and> idxStr (snd (statement_vtab_best_index vt malloc_ok info))
        = Some (map (\<lambda>c. c + 1) (hidden_cols (num_outputs vt) (aConstraint info)))
    \<and> needToFreeIdxStr (snd (statement_vtab_best_index vt malloc_ok info))
    \<and> aConstraintUsage (snd (statement_vtab_best_index vt malloc_ok info))
        = map (dense_usage (num_outputs vt) (aConstraint info)) [0..<length (aConstraint info)]"
  using best_index_feasible [OF assms(1,2), of malloc_ok] assms(3,4) by simp

text \<open>
  Hidden columns 0 and 2 constrained, column 1 free: a map of length 2 sending argument
  1 to parameter 1 and argument 2 to parameter 3.
\<close>

theorem plan_index_map_witness:
  "host_initialised (host_request [eq_on 1, eq_on 3])
   \<and> hidden_cols (num_outputs example_vtab) (aConstraint (host_request [eq_on 1, eq_on 3])) = [0, 2]
   \<and> fst (statement_vtab_best_index example_vtab True (host_request [eq_on 1, eq_on 3])) = SQLITE_OK
   \<and> idxStr (snd (statement_vtab_best_index example_vtab True (host_request [eq_on 1, eq_on 3])))
       = Some [1, 3]
   \<and> map argvIndex (aConstraintUsage (snd (statement_vtab_best_index example_vtab True
        (host_request [eq_on 1, eq_on 3])))) = [1, 2]"
proof -
  have a1: "host_initialised (host_request [eq_on 1, eq_on 3])"
    by (simp add: host_initialised_def host_request_def)
  have a2: "\<forall>c\<in>set (aConstraint (host_request [eq_on 1, eq_on 3])).
      on_hidden (num_outputs example_vtab) c \<longrightarrow> usable_eq c"
    by (simp add: host_request_def eq_on_def usable_eq_def rc_defs)
  have hc: "hidden_cols (num_outputs example_vtab) (aConstraint (host_request [eq_on 1, eq_on 3])) = [0, 2]"
    by (simp add: host_request_def eq_on_def hidden_cols_def on_hidden_def example_vtab_def)
  have a3: "\<not> (\<exists>max_c<64. set (hidden_cols (num_outputs example_vtab)
      (aConstraint (host_request [eq_on 1, eq_on 3]))) = {0..max_c})"
  proof
    assume "\<exists>max_c<64. set (hidden_cols (num_outputs example_vtab)
      (aConstraint (host_request [eq_on 1, eq_on 3]))) = {0..max_c}"
    then obtain m where m: "{0, 2} = {0..m::int}" unfolding hc by auto
    then have "(2::int) \<in> {0..m}" by blast
    then have "(1::int) \<in> {0..m}" by simp
    then have "(1::int) \<in> {0, 2}" unfolding m .
    then show False by simp
  qed
  show ?thesis
    using plan_index_map [OF a1 a2 a3] a1 hc
    by (simp add: host_request_def eq_on_def on_hidden_def example_vtab_def dense_usage_def upt_rec)
qed

text \<open>
  Claim C3 as stated fails for predicates that arrive out of order on a contiguous set
  of columns: with hidden column 1 constrained before hidden column 0 the planner keeps
  the identity order and builds no map.
\<close>

theorem plan_index_map_counterexample:
  "hidden_cols (num_outputs example_vtab) (aConstraint (host_request [eq_on 2, eq_on 1])) = [1, 0]
   \<and> fst (statement_vtab_best_index example_vtab True (host_request [eq_on 2, eq_on 1])) = SQLITE_OK
   \<and> idxStr (snd (statement_vtab_best_index example_vtab True (host_request [eq_on 2, eq_on 1])))
       = None
   \<and> map argvIndex (aConstraintUsage (snd (statement_vtab_best_index example_vtab True
        (host_request [eq_on 2, eq_on 1])))) = [2, 1]"
  by (simp add: plan_eval rc_defs)

subsection \<open>Predicates on output columns\<close>

lemma without_outputs_facts:
  "aConstraint (without_outputs nout info) = filter (on_hidden nout) (aConstraint info)"
  "host_initialised info \<Longrightarrow> host_initialised (without_outputs nout info)"
  "idxStr (without_outputs nout info) = idxStr info"
  "hidden_cols nout (filter (on_hidden nout) cs) = hidden_cols nout cs"
  "(\<forall>c\<in>set (filter (on_hidden nout) cs). on_hidden nout c \<longrightarrow> usable_eq c)
     \<longleftrightarrow> (\<forall>c\<in>set cs. on_hidden nout c \<longrightarrow> usable_eq c)"
  by (auto simp: without_outputs_def host_initialised_def hidden_cols_def)

lemma best_index_output_entry:
  assumes init: "host_initialised info"
    and j: "j < length (aConstraint info)"
    and out: "\<not> on_hidden (num_outputs vt) (aConstraint info ! j)"
  shows "aConstraintUsage (snd (statement_vtab_best_index vt ok info)) ! j
         = \<lparr>argvIndex = 0, omit = 0\<rparr>"
proof (cases "\<forall>c\<in>set (aConstraint info). on_hidden (num_outputs vt) c \<longrightarrow> usable_eq c")
  case True
  show ?thesis
    using j out by (simp add: best_index_feasible [OF init True] identity_usage_def dense_usage_def)
next
  case False
  have us0: "aConstraintUsage info = replicate (length (aConstraint info)) \<lparr>argvIndex = 0, omit = 0\<rparr>"
    using init by (simp add: host_initialised_def)
  have "usage (snd (scan_constraints (num_outputs vt) (aConstraint info) 0
                    (plan_start (aConstraintUsage info)))) ! j
        = usage (plan_start (aConstraintUsage info)) ! j"
    using j out by (intro scan_constraints_outputs_kept) (simp_all add: plan_start_def us0)
  then show ?thesis
    using j by (simp add: best_index_infeasible(3) [OF False] plan_start_def us0)
qed

text \<open>
  Claim C9. In every request as the host sets it up, a predicate on an output column is
  left alone: its usage entry keeps argument position 0 and an unset omit flag, also
  when the plan is infeasible or an index map is built. Whether the plan is feasible
  and whether an index map is attached do not depend on such predicates either: the
  return code and the index map are those of the request with the predicates on output
  columns taken out.
\<close>

theorem plan_ignores_outputs:
  assumes "host_initialised info"
  shows "(\<forall>j<length (aConstraint info).
            \<not> on_hidden (num_outputs vt) (aConstraint info ! j) \<longrightarrow>
            aConstraintUsage (snd (statement_vtab_best_index vt ok info)) ! j
              = \<lparr>argvIndex = 0, omit = 0\<rparr>)
    \<and> fst (statement_vtab_best_index vt ok info)
        = fst (statement_vtab_best_index vt ok (without_outputs (num_outputs vt) info))
    \<and> idxStr (snd (statement_vtab_best_index vt ok info))
        = idxStr (snd (statement_vtab_best_index vt ok (without_outputs (num_outputs vt) info)))"
proof -
  let ?info' = "without_outputs (num_outputs vt) info"
  have init': "host_initialised ?info'"
    using assms by (rule without_outputs_facts(2))
  have same: "fst (statement_vtab_best_index vt ok info) = fst (statement_vtab_best_index vt ok ?info')
    \<and> idxStr (snd (statement_vtab_best_index vt ok info))
        = idxStr (snd (statement_vtab_best_index vt ok ?info'))"
  proof (cases "\<forall>c\<in>set (aConstraint info). on_hidden (num_outputs vt) c \<longrightarrow> usable_eq c")
    case True
    then have True': "\<forall>c\<in>set (aConstraint ?info'). on_hidden (num_outputs vt) c \<longrightarrow> usable_eq c"
      unfolding without_outputs_facts(1) without_outputs_facts(5) .
    define D where
      "D \<longleftrightarrow> (\<exists>max_c<64. set (hidden_cols (num_outputs vt) (aConstraint info)) = {0..max_c})"
    have r: "fst (statement_vtab_best_index vt ok info) = (if D \<or> ok then SQLITE_OK else SQLITE_NOMEM)"
      "idxStr (snd (statement_vtab_best_index vt ok info)) =
         (if D \<or> \<not> ok then idxStr info
          else Some (map (\<lambda>h. h + 1) (hidden_cols (num_outputs vt) (aConstraint info))))"
      unfolding best_index_feasible [OF assms True] D_def [symmetric] by simp_all
    have r': "fst (statement_vtab_best_index vt ok ?info') = (if D \<or> ok then SQLITE_OK else SQLITE_NOMEM)"
      "idxStr (snd (statement_vtab_best_index vt ok ?info')) =
         (if D \<or> \<not> ok then idxStr info
          else Some (map (\<lambda>h. h + 1) (hidden_cols (num_outputs vt) (aConstraint info))))"
      unfolding best_index_feasible [OF init' True'] without_outputs_facts(1,4) D_def [symmetric]
      by (simp_all add: without_outputs_facts(3))
    show ?thesis unfolding r r' by simp
  next
    case False
    then have False': "\<not> (\<forall>c\<in>set (aConstraint ?info'). on_hidden (num_outputs vt) c \<longrightarrow> usable_eq c)"
      unfolding without_outputs_facts(1) without_outputs_facts(5) .
    show ?thesis
      by (simp add: best_index_infeasible(1,2) [OF False] best_index_infeasible(1,2) [OF False']
          without_outputs_facts(3))
  qed
  show ?thesis
    using best_index_output_entry [OF assms] same by blast
qed

text \<open>
  An unusable greater-than predicate on the output column next to equalities on hidden
  columns 0 and 2.
\<close>

theorem plan_ignores_outputs_witness:
  "host_initialised (host_request [\<lparr>iColumn = 0, op = 4, usable = 0\<rparr>, eq_on 1, eq_on 3])
   \<and> \<not> on_hidden (num_outputs example_vtab)
         (aConstraint (host_request [\<lparr>iColumn = 0, op = 4, usable = 0\<rparr>, eq_on 1, eq_on 3]) ! 0)
   \<and> aConstraintUsage (snd (statement_vtab_best_index example_vtab True
         (host_request [\<lparr>iColumn = 0, op = 4, usable = 0\<rparr>, eq_on 1, eq_on 3]))) ! 0
       = \<lparr>argvIndex = 0, omit = 0\<rparr>
   \<and> fst (statement_vtab_best_index example_vtab True
         (host_request [\<lparr>iColumn = 0, op = 4, usable = 0\<rparr>, eq_on 1, eq_on 3]))
       = fst (statement_vtab_best_index example_vtab True (host_request [eq_on 1, eq_on 3]))
   \<and> idxStr (snd (statement_vtab_best_index example_vtab True
         (host_request [\<lparr>iColumn = 0, op = 4, usable = 0\<rparr>, eq_on 1, eq_on 3])))
       = idxStr (snd (statement_vtab_best_index example_vtab True (host_request [eq_on 1, eq_on 3])))"
proof -
  have a1: "host_initialised (host_request [\<lparr>iColumn = 0, op = 4, usable = 0\<rparr>, eq_on 1, eq_on 3])"
    by (simp add: host_initialised_def host_request_def)
  have w: "without_outputs (num_outputs example_vtab)
      (host_request [\<lparr>iColumn = 0, op = 4, usable = 0\<rparr>, eq_on 1, eq_on 3])
      = host_request [eq_on 1, eq_on 3]"
    by (simp add: without_outputs_def host_request_def example_vtab_def on_hidden_def eq_on_def)
  show ?thesis
    using plan_ignores_outputs [OF a1, of example_vtab True] a1 unfolding w
    by (simp add: host_request_def example_vtab_def on_hidden_def)
qed

section \<open>Properties of the cursor\<close>

lemma next_keeps_params:
  "param_argc (advance api c) = param_argc c" "param_argv (advance api c) = param_argv c"
  by (simp_all add: advance_def statement_vtab_next_def split: prod.splits)

lemma advances_keep_params:
  "param_argc ((advance api ^^ k) c) = param_argc c \<and> param_argv ((advance api ^^ k) c) = param_argv c"
  by (induction k) (simp_all add: next_keeps_params)

lemma filter_captures:
  assumes "step_contract api"
    and "statement_vtab_filter api vt cur idxNum colmap argv = Inr (SQLITE_OK, cur1)"
  shows "param_argc cur1 = int (length argv) \<and> take (length argv) (param_argv cur1) = argv
         \<and> int (length argv) \<le> num_inputs vt"
proof -
  have nok: "\<And>s s'. sqlite3_step api s \<noteq> (SQLITE_OK, s')"
    using assms(1) by (metis fst_conv step_contract_def)
  show ?thesis
    using assms(2)
    by (auto simp: statement_vtab_filter_def Let_def nok
        split: sum.splits prod.splits if_splits)
qed

text \<open>
  Claim C4. After a bind that succeeded with the argument vector \<open>argv\<close>, and after any
  number \<open>k\<close> of further advances, reading column \<open>i\<close> always returns
  \<^verbatim>\<open>SQLITE_OK\<close>, and the result is: for \<open>i < num_outputs\<close> the statement's current
  value at position \<open>i\<close>; otherwise, for \<open>i - num_outputs < argc\<close>, the bound value
  \<open>argv[i - num_outputs]\<close>, the same on every row; otherwise the result slot is left as
  the host set it up, which is SQL null. The host is any host whose step never answers
  \<^verbatim>\<open>SQLITE_OK\<close>.
\<close>

theorem column_read:
  assumes "step_contract api"
    and "statement_vtab_filter api vt cur idxNum colmap argv = Inr (SQLITE_OK, cur1)"
  shows "statement_vtab_column api vt ((advance api ^^ k) cur1) ctx i =
     (SQLITE_OK,
      if i < num_outputs vt
      then Some (sqlite3_column_value api (stmt ((advance api ^^ k) cur1)) i)
      else if i - num_outputs vt < int (length argv)
      then Some (argv ! nat (i - num_outputs vt))
      else ctx)"
proof -
  have c: "param_argc cur1 = int (length argv)" "take (length argv) (param_argv cur1) = argv"
    using filter_captures [OF assms(1) assms(2)] by simp_all
  have k: "param_argc ((advance api ^^ k) cur1) = int (length argv)"
    "param_argv ((advance api ^^ k) cur1) = param_argv cur1"
    using advances_keep_params [where api = api and k = k and c = cur1] c(1) by simp_all
  have nth: "\<And>j. j < length argv \<Longrightarrow> param_argv cur1 ! j = argv ! j"
    using c(2) by (metis nth_take)
  show ?thesis
    by (auto simp: statement_vtab_column_def sqlite3_result_value_def k nth)
qed

lemma toy_step_contract: "step_contract (toy_api q)"
  by (simp add: step_contract_def toy_api_def rc_defs split: list.splits)

text \<open>
  A scan of two rows with the parameter bound to \<open>''1''\<close>: on the second row column 0
  holds the row's value, column 1 the bound input, and column 2 is null.
\<close>

theorem column_read_witness:
  "step_contract (toy_api (toy_select [[''a''], [''b'']]))
   \<and> statement_vtab_filter (toy_api (toy_select [[''a''], [''b'']])) toy_vtab
        (toy_cursor [[''a''], [''b'']]) 0 None [''1'']
       = Inr (SQLITE_OK,
              \<lparr>stmt = \<lparr>bound = [(1, ''1'')], pending = [[''b'']], current = Some [''a'']\<rparr>,
               rowid = 1, param_argc = 1, param_argv = [''1'']\<rparr>)
   \<and> statement_vtab_column (toy_api (toy_select [[''a''], [''b'']])) toy_vtab
        ((advance (toy_api (toy_select [[''a''], [''b'']])) ^^ Suc 0)
           \<lparr>stmt = \<lparr>bound = [(1, ''1'')], pending = [[''b'']], current = Some [''a'']\<rparr>,
            rowid = 1, param_argc = 1, param_argv = [''1'']\<rparr>) None 0
       = (SQLITE_OK, Some ''b'')
   \<and> statement_vtab_column (toy_api (toy_select [[''a''], [''b'']])) toy_vtab
        ((advance (toy_api (toy_select [[''a''], [''b'']])) ^^ Suc 0)
           \<lparr>stmt = \<lparr>bound = [(1, ''1'')], pending = [[''b'']], current = Some [''a'']\<rparr>,
            rowid = 1, param_argc = 1, param_argv = [''1'']\<rparr>) None 1
       = (SQLITE_OK, Some ''1'')
   \<and> statement_vtab_column (toy_api (toy_select [[''a''], [''b'']])) toy_vtab
        ((advance (toy_api (toy_select [[''a''], [''b'']])) ^^ Suc 0)
           \<lparr>stmt = \<lparr>bound = [(1, ''1'')], pending = [[''b'']], current = Some [''a'']\<rparr>,
            rowid = 1, param_argc = 1, param_argv = [''1'']\<rparr>) None 2
       = (SQLITE_OK, None)"
proof -
  let ?api = "toy_api (toy_select [[''a''], [''b'']])"
  let ?c1 = "\<lparr>stmt = \<lparr>bound = [(1, ''1'')], pending = [[''b'']], current = Some [''a'']\<rparr>,
               rowid = 1, param_argc = 1, param_argv = [''1'']\<rparr>"
  have sc: "step_contract ?api"
    by (rule toy_step_contract)
  have flt: "statement_vtab_filter ?api toy_vtab (toy_cursor [[''a''], [''b'']]) 0 None [''1'']
       = Inr (SQLITE_OK, ?c1)"
    by (simp add: statement_vtab_filter_def toy_api_def toy_select_def toy_vtab_def toy_cursor_def
        rc_defs Let_def)
  have adv: "(advance ?api ^^ Suc 0) ?c1 =
      \<lparr>stmt = \<lparr>bound = [(1, ''1'')], pending = [], current = Some [''b'']\<rparr>,
       rowid = 2, param_argc = 1, param_argv = [''1'']\<rparr>"
    by (simp add: advance_def statement_vtab_next_def toy_api_def toy_select_def rc_defs)
  show ?thesis
    using column_read [OF sc flt, of "Suc 0" None 0] column_read [OF sc flt, of "Suc 0" None 1]
      column_read [OF sc flt, of "Suc 0" None 2] sc flt
    unfolding adv
    by (simp add: toy_vtab_def toy_api_def)
qed

lemma sint_succ:
  fixes w :: "32 word"
  assumes "sint w < 2147483647"
  shows "sint (w + 1) = sint w + 1"
proof -
  have "- (2 ^ 31) \<le> sint w" using sint_ge [of w] by simp
  then have "signed_take_bit 31 (sint w + 1) = sint w + 1"
    using assms by (intro signed_take_bit_int_eq_self) simp_all
  then show ?thesis by (simp add: sint_word_ariths)
qed

lemma filter_rowid:
  "statement_vtab_filter api vt cur idxNum colmap argv = Inr (rc, cur1) \<Longrightarrow> rowid cur1 = 1"
  by (auto simp: statement_vtab_filter_def Let_def split: sum.splits prod.splits if_splits)

lemma advance_rowid:
  "rowid (advance api c) =
     (if fst (sqlite3_step api (stmt c)) = SQLITE_ROW then rowid c + 1 else rowid c)"
  by (simp add: advance_def statement_vtab_next_def split: prod.splits)

lemma advances_rowid:
  "\<forall>j<k. fst (sqlite3_step api (stmt ((advance api ^^ j) c))) = SQLITE_ROW \<Longrightarrow>
   rowid ((advance api ^^ k) c) = rowid c + of_nat k"
  by (induction k) (simp_all add: advance_rowid)

text \<open>
  Claim C5, as amended. A bind sets the row identity to 1 before the first step,
  whether or not that step yields a row. An advance whose step yields a row returns
  \<^verbatim>\<open>SQLITE_OK\<close> and adds 1 to it (in 32-bit arithmetic; below the largest \<^verbatim>\<open>int\<close>
  the value read by \<^verbatim>\<open>statement_vtab_rowid\<close> grows by exactly 1); an advance whose step
  yields no row leaves it unchanged. So after \<open>k\<close> advances that all yielded rows the
  row identity is \<open>1 + k\<close>.
\<close>

theorem row_identity:
  "(statement_vtab_filter api vt cur idxNum colmap argv = Inr (rc, cur1) \<longrightarrow>
      statement_vtab_rowid cur1 = (SQLITE_OK, 1))
   \<and> (fst (sqlite3_step api (stmt c)) = SQLITE_ROW \<longrightarrow>
        fst (statement_vtab_next api c) = SQLITE_OK
        \<and> rowid (advance api c) = rowid c + 1
        \<and> (sint (rowid c) < 2147483647 \<longrightarrow>
             snd (statement_vtab_rowid (advance api c)) = snd (statement_vtab_rowid c) + 1))
   \<and> (fst (sqlite3_step api (stmt c)) \<noteq> SQLITE_ROW \<longrightarrow> rowid (advance api c) = rowid c)
   \<and> (statement_vtab_filter api vt cur idxNum colmap argv = Inr (rc, cur1)
        \<and> (\<forall>j<k. fst (sqlite3_step api (stmt ((advance api ^^ j) cur1))) = SQLITE_ROW)
        \<and> k < 2147483647 \<longrightarrow>
        snd (statement_vtab_rowid ((advance api ^^ k) cur1)) = 1 + int k)"
proof -
  have a: "statement_vtab_filter api vt cur idxNum colmap argv = Inr (rc, cur1) \<Longrightarrow>
      statement_vtab_rowid cur1 = (SQLITE_OK, 1)"
    by (simp add: filter_rowid statement_vtab_rowid_def)
  have b: "fst (sqlite3_step api (stmt c)) = SQLITE_ROW \<Longrightarrow>
        fst (statement_vtab_next api c) = SQLITE_OK"
    by (cases "sqlite3_step api (stmt c)") (simp add: statement_vtab_next_def)
  have c: "fst (sqlite3_step api (stmt c)) = SQLITE_ROW \<Longrightarrow> sint (rowid c) < 2147483647 \<Longrightarrow>
      snd (statement_vtab_rowid (advance api c)) = snd (statement_vtab_rowid c) + 1"
    by (simp add: statement_vtab_rowid_def advance_rowid sint_succ)
  have d: "snd (statement_vtab_rowid ((advance api ^^ k) cur1)) = 1 + int k"
    if f: "statement_vtab_filter api vt cur idxNum colmap argv = Inr (rc, cur1)"
      and rows: "\<forall>j<k. fst (sqlite3_step api (stmt ((advance api ^^ j) cur1))) = SQLITE_ROW"
      and k: "k < 2147483647"
  proof -
    have "rowid ((advance api ^^ k) cur1) = 1 + of_nat k"
      using advances_rowid [OF rows] filter_rowid [OF f] by simp
    also have "\<dots> = (word_of_int (1 + int k) :: 32 word)" by simp
    finally have "sint (rowid ((advance api ^^ k) cur1)) = signed_take_bit 31 (1 + int k)"
      by (simp only: sint_sbintrunc') simp
    also have "\<dots> = 1 + int k"
      using k by (intro signed_take_bit_int_eq_self) simp_all
    finally show ?thesis by (simp add: statement_vtab_rowid_def)
  qed
  show ?thesis using a b c d by (simp add: advance_rowid)
qed


text \<open>
  A scan of two rows: identity 1 after the bind, 2 after the advance to the second row,
  still 2 after the advance that finds the end.
\<close>

theorem row_identity_witness:
  "statement_vtab_filter (toy_api (toy_select [[''a''], [''b'']])) toy_vtab
        (toy_cursor [[''a''], [''b'']]) 0 None [''1'']
       = Inr (SQLITE_OK,
              \<lparr>stmt = \<lparr>bound = [(1, ''1'')], pending = [[''b'']], current = Some [''a'']\<rparr>,
               rowid = 1, param_argc = 1, param_argv = [''1'']\<rparr>)
   \<and> fst (sqlite3_step (toy_api (toy_select [[''a''], [''b'']]))
             \<lparr>bound = [(1, ''1'')], pending = [[''b'']], current = Some [''a'']\<rparr>) = SQLITE_ROW
   \<and> statement_vtab_rowid
        (advance (toy_api (toy_select [[''a''], [''b'']]))
           \<lparr>stmt = \<lparr>bound = [(1, ''1'')], pending = [[''b'']], current = Some [''a'']\<rparr>,
            rowid = 1, param_argc = 1, param_argv = [''1'']\<rparr>) = (SQLITE_OK, 2)
   \<and> fst (sqlite3_step (toy_api (toy_select [[''a''], [''b'']]))
             \<lparr>bound = [(1, ''1'')], pending = [], current = Some [''b'']\<rparr>) \<noteq> SQLITE_ROW
   \<and> statement_vtab_rowid
        (advance (toy_api (toy_select [[''a''], [''b'']]))
           \<lparr>stmt = \<lparr>bound = [(1, ''1'')], pending = [], current = Some [''b'']\<rparr>,
            rowid = 2, param_argc = 1, param_argv = [''1'']\<rparr>) = (SQLITE_OK, 2)"
proof -
  let ?api = "toy_api (toy_select [[''a''], [''b'']])"
  let ?c1 = "\<lparr>stmt = \<lparr>bound = [(1, ''1'')], pending = [[''b'']], current = Some [''a'']\<rparr>,
               rowid = 1, param_argc = 1, param_argv = [''1'']\<rparr>"
  let ?c2 = "\<lparr>stmt = \<lparr>bound = [(1, ''1'')], pending = [], current = Some [''b'']\<rparr>,
               rowid = 2, param_argc = 1, param_argv = [''1'']\<rparr>"
  have flt: "statement_vtab_filter ?api toy_vtab (toy_cursor [[''a''], [''b'']]) 0 None [''1'']
       = Inr (SQLITE_OK, ?c1)"
    by (simp add: statement_vtab_filter_def toy_api_def toy_select_def toy_vtab_def toy_cursor_def
        rc_defs Let_def)
  have s1: "fst (sqlite3_step ?api (stmt ?c1)) = SQLITE_ROW"
    by (simp add: toy_api_def)
  have s2: "fst (sqlite3_step ?api (stmt ?c2)) \<noteq> SQLITE_ROW"
    by (simp add: toy_api_def rc_defs)
  have r1: "sint (rowid ?c1) < 2147483647" by simp
  have k: "\<forall>j<Suc 0. fst (sqlite3_step ?api (stmt ((advance ?api ^^ j) ?c1))) = SQLITE_ROW"
    using s1 by simp
  show ?thesis
    using row_identity [where api = ?api and vt = toy_vtab and cur = "toy_cursor [[''a''], [''b'']]"
        and idxNum = 0 and colmap = None and argv = "[''1'']" and rc = SQLITE_OK and ?cur1.0 = ?c1
        and c = ?c1 and k = "Suc 0"]
      row_identity [where api = ?api and vt = toy_vtab and cur = "toy_cursor [[''a''], [''b'']]"
        and idxNum = 0 and colmap = None and argv = "[''1'']" and rc = SQLITE_OK and ?cur1.0 = ?c1
        and c = ?c2 and k = 0]
      flt s1 s2 r1 k
    by (simp add: statement_vtab_rowid_def)
qed

text \<open>
  Claim C5 as stated has the row identity at 0 until the first row. A scan without rows
  is at its end right after the bind, no row was ever produced, and its row identity
  is 1.
\<close>

theorem row_identity_counterexample:
  "statement_vtab_filter (toy_api (toy_select [])) toy_vtab (toy_cursor []) 0 None [''2'']
     = Inr (SQLITE_OK,
            \<lparr>stmt = \<lparr>bound = [(1, ''2'')], pending = [], current = None\<rparr>,
             rowid = 1, param_argc = 1, param_argv = [''2'']\<rparr>)
   \<and> statement_vtab_eof (toy_api (toy_select []))
        \<lparr>stmt = \<lparr>bound = [(1, ''2'')], pending = [], current = None\<rparr>,
         rowid = 1, param_argc = 1, param_argv = [''2'']\<rparr>
   \<and> statement_vtab_rowid
        \<lparr>stmt = \<lparr>bound = [(1, ''2'')], pending = [], current = None\<rparr>,
         rowid = 1, param_argc = 1, param_argv = [''2'']\<rparr> = (SQLITE_OK, 1)
   \<and> rowid \<lparr>stmt = \<lparr>bound = [(1, ''2'')], pending = [], current = None\<rparr>,
         rowid = 1, param_argc = 1, param_argv = [''2'']\<rparr> \<noteq> 0"
  by (simp add: statement_vtab_filter_def statement_vtab_eof_def statement_vtab_rowid_def
      toy_api_def toy_select_def toy_vtab_def toy_cursor_def rc_defs Let_def)

section \<open>Properties of the schema deriver\<close>

lemma digit_char_not_quote: "d < 10 \<Longrightarrow> digit_char d \<noteq> CHR 0x27"
proof -
  assume "d < 10"
  then have "d \<in> {0, 1, 2, 3, 4, 5, 6, 7, 8, 9}" by auto
  then show ?thesis by (auto simp: digit_char_def)
qed

lemma dec_nat_no_quote: "CHR 0x27 \<notin> set (dec_nat n)"
proof (induction n rule: dec_nat.induct)
  case (1 n)
  show ?case
  proof (cases "n < 10")
    case True
    then show ?thesis using digit_char_not_quote [of n] by (subst dec_nat.simps) auto
  next
    case False
    then show ?thesis
      using 1 digit_char_not_quote [of "n mod 10"] by (subst dec_nat.simps) auto
  qed
qed

lemma fmt_d_no_quote: "CHR 0x27 \<notin> set (fmt_d i)"
  by (simp add: fmt_d_def dec_nat_no_quote)

lemma fmt_Q_plain: "CHR 0x27 \<notin> set z \<Longrightarrow> fmt_Q z = [CHR 0x27] @ z @ [CHR 0x27]"
proof -
  assume a: "CHR 0x27 \<notin> set z"
  have "concat (map (\<lambda>c. if c = CHR 0x27 then [c, c] else [c]) z) = z"
    using a by (induction z) auto
  then show ?thesis by (simp add: fmt_Q_def)
qed

lemma append_outputs_named:
  "\<forall>j. i \<le> j \<and> j < nout \<longrightarrow> sqlite3_column_name api pStmt j \<noteq> None \<Longrightarrow>
   append_outputs api pStmt nout i z =
     Some (z @ concat (map (\<lambda>j. spec_column_text (spec_output_column api pStmt j)) [i..nout - 1]))"
proof (induction api pStmt nout i z rule: append_outputs.induct)
  case (1 api pStmt nout i zSql)
  show ?case
  proof (cases "i < nout")
    case False
    then show ?thesis by (subst append_outputs.simps) simp
  next
    case True
    then obtain name where name: "sqlite3_column_name api pStmt i = Some name"
      using "1.prems" by (cases "sqlite3_column_name api pStmt i") auto
    have rest: "\<forall>j. i + 1 \<le> j \<and> j < nout \<longrightarrow> sqlite3_column_name api pStmt j \<noteq> None"
      using "1.prems" by simp
    have up: "[i..nout - 1] = i # [i + 1..nout - 1]"
      using True by (simp add: upto_rec1)
    define Z where "Z = zSql @ fmt_Q name @ '' '' @
        (case sqlite3_column_decltype api pStmt i of None \<Rightarrow> [] | Some type \<Rightarrow> type) @ '',''"
    have ih: "append_outputs api pStmt nout (i + 1) Z =
        Some (Z @ concat (map (\<lambda>j. spec_column_text (spec_output_column api pStmt j)) [i + 1..nout - 1]))"
      unfolding Z_def by (rule "1.IH" [OF True name rest])
    have step: "append_outputs api pStmt nout i zSql = append_outputs api pStmt nout (i + 1) Z"
      unfolding Z_def by (subst append_outputs.simps) (simp add: True name)
    have Z: "Z = zSql @ spec_column_text (spec_output_column api pStmt i)"
      by (simp add: Z_def spec_column_text_def spec_output_column_def name)
    show ?thesis unfolding step ih up by (simp add: Z)
  qed
qed

lemma append_outputs_unnamed:
  "i \<le> j \<Longrightarrow> j < nout \<Longrightarrow> sqlite3_column_name api pStmt j = None \<Longrightarrow>
   append_outputs api pStmt nout i z = None"
proof (induction api pStmt nout i z rule: append_outputs.induct)
  case (1 api pStmt nout i zSql)
  have lt: "i < nout" using "1.prems" by simp
  show ?case
  proof (cases "sqlite3_column_name api pStmt i")
    case None
    then show ?thesis using lt by (subst append_outputs.simps) simp
  next
    case (Some name)
    then have "i \<noteq> j" using "1.prems" by auto
    then have "i + 1 \<le> j" using "1.prems" by simp
    then show ?thesis
      using "1.IH" [OF lt Some _ "1.prems"(2,3)] lt Some
      by (subst append_outputs.simps) simp
  qed
qed

lemma append_inputs_spec:
  "append_inputs api pStmt nargs i z =
     z @ concat (map (\<lambda>k. spec_column_text (spec_input_column api pStmt k)) [i + 1..nargs])"
proof (induction api pStmt nargs i z rule: append_inputs.induct)
  case (1 api pStmt nargs i zSql)
  show ?case
  proof (cases "i < nargs")
    case False
    then show ?thesis by (subst append_inputs.simps) simp
  next
    case True
    have up: "[i + 1..nargs] = (i + 1) # [i + 1 + 1..nargs]"
      using True by (simp add: upto_rec1)
    have entry: "(case sqlite3_bind_parameter_name api pStmt (i + 1) of
                Some name \<Rightarrow> fmt_Q (drop 1 name) @ '' hidden,''
              | None \<Rightarrow> [CHR 0x27] @ fmt_d (i + 1) @ [CHR 0x27] @ '' hidden,'')
          = spec_column_text (spec_input_column api pStmt (i + 1))"
      by (simp add: spec_column_text_def spec_input_column_def fmt_Q_plain [OF fmt_d_no_quote]
          split: option.splits)
    define Z where "Z = zSql @
             (case sqlite3_bind_parameter_name api pStmt (i + 1) of
                Some name \<Rightarrow> fmt_Q (drop 1 name) @ '' hidden,''
              | None \<Rightarrow> [CHR 0x27] @ fmt_d (i + 1) @ [CHR 0x27] @ '' hidden,'')"
    have ih: "append_inputs api pStmt nargs (i + 1) Z =
        Z @ concat (map (\<lambda>k. spec_column_text (spec_input_column api pStmt k)) [i + 1 + 1..nargs])"
      unfolding Z_def by (rule "1.IH" [OF True])
    have step: "append_inputs api pStmt nargs i zSql = append_inputs api pStmt nargs (i + 1) Z"
      unfolding Z_def by (subst append_inputs.simps) (simp add: True)
    have Z: "Z = zSql @ spec_column_text (spec_input_column api pStmt (i + 1))"
      unfolding Z_def entry ..
    show ?thesis unfolding step ih up by (simp add: Z)
  qed
qed

lemma close_paren:
  "z \<noteq> [] \<Longrightarrow> z[length z - 1 := c] = butlast z @ [c]"
  by (cases z rule: rev_cases) (simp_all add: list_update_append)

lemma build_create_statement_named:
  assumes "\<forall>j. 0 \<le> j \<and> j < sqlite3_column_count api pStmt \<longrightarrow> sqlite3_column_name api pStmt j \<noteq> None"
  shows "build_create_statement api ok pStmt =
     (if ok then Some (spec_schema_text (spec_columns api pStmt)) else None)"
proof -
  let ?z = "''CREATE TABLE x( '' @ concat (map spec_column_text (spec_columns api pStmt))"
  have o: "append_outputs api pStmt (sqlite3_column_count api pStmt) 0 ''CREATE TABLE x( '' =
      Some (''CREATE TABLE x( '' @
            concat (map (\<lambda>j. spec_column_text (spec_output_column api pStmt j))
                      [0..sqlite3_column_count api pStmt - 1]))"
    by (rule append_outputs_named) (use assms in simp)
  have z: "append_inputs api pStmt (sqlite3_bind_parameter_count api pStmt) 0
        (''CREATE TABLE x( '' @
            concat (map (\<lambda>j. spec_column_text (spec_output_column api pStmt j))
                      [0..sqlite3_column_count api pStmt - 1])) = ?z"
    by (simp add: append_inputs_spec spec_columns_def comp_def)
  have ne: "?z \<noteq> []" by simp
  show ?thesis
    unfolding build_create_statement_def o option.case z Let_def
    using close_paren [OF ne, of "CHR '')''"] ne
    by (simp add: spec_schema_text_def del: append.simps append_Cons append_Nil)
qed

lemma build_create_statement_unnamed:
  assumes "0 \<le> j" "j < sqlite3_column_count api pStmt" "sqlite3_column_name api pStmt j = None"
  shows "build_create_statement api ok pStmt = None"
  by (simp add: build_create_statement_def append_outputs_unnamed [OF assms])

text \<open>
  Claim C8. When every result column has a name and the text can be allocated, the
  schema text built by the two loops is the rendering of the column list of the
  specification: the output columns in statement order with their declared types,
  followed by one hidden column per parameter in parameter order, a named parameter
  under its name without the leading marker character and an unnamed one under its
  1-based position in decimal.
\<close>

theorem derived_schema:
  assumes "\<forall>j. 0 \<le> j \<and> j < sqlite3_column_count api pStmt \<longrightarrow>
             sqlite3_column_name api pStmt j \<noteq> None"
  shows "build_create_statement api True pStmt = Some (spec_schema_text (spec_columns api pStmt))"
  using build_create_statement_named [OF assms, of True] by simp

text \<open>
  Two result columns, the second without declared type, and the parameters \<open>:k\<close>,
  an unnamed one and \<open>$lim\<close>.
\<close>

theorem derived_schema_witness:
  "sqlite3_column_count (toy_api toy_mixed) (toy_handle []) = 2
   \<and> sqlite3_column_name (toy_api toy_mixed) (toy_handle []) 0 = Some ''v''
   \<and> sqlite3_column_name (toy_api toy_mixed) (toy_handle []) 1 = Some ''n''
   \<and> build_create_statement (toy_api toy_mixed) True (toy_handle [])
       = Some (''CREATE TABLE x( '' @ [CHR 0x27] @ ''v'' @ [CHR 0x27] @ '' TEXT,''
               @ [CHR 0x27] @ ''n'' @ [CHR 0x27] @ '' ,''
               @ [CHR 0x27] @ ''k'' @ [CHR 0x27] @ '' hidden,''
               @ [CHR 0x27] @ ''2'' @ [CHR 0x27] @ '' hidden,''
               @ [CHR 0x27] @ ''lim'' @ [CHR 0x27] @ '' hidden)'')"
proof -
  have names: "\<forall>j. 0 \<le> j \<and> j < sqlite3_column_count (toy_api toy_mixed) (toy_handle []) \<longrightarrow>
         sqlite3_column_name (toy_api toy_mixed) (toy_handle []) j \<noteq> None"
  proof (intro allI impI)
    fix j :: int
    assume "0 \<le> j \<and> j < sqlite3_column_count (toy_api toy_mixed) (toy_handle [])"
    then have "j = 0 \<or> j = 1" by (simp add: toy_api_def toy_mixed_def) arith
    then show "sqlite3_column_name (toy_api toy_mixed) (toy_handle []) j \<noteq> None"
      by (auto simp: toy_api_def toy_mixed_def)
  qed
  have rendered: "spec_schema_text (spec_columns (toy_api toy_mixed) (toy_handle []))
       = ''CREATE TABLE x( '' @ [CHR 0x27] @ ''v'' @ [CHR 0x27] @ '' TEXT,''
               @ [CHR 0x27] @ ''n'' @ [CHR 0x27] @ '' ,''
               @ [CHR 0x27] @ ''k'' @ [CHR 0x27] @ '' hidden,''
               @ [CHR 0x27] @ ''2'' @ [CHR 0x27] @ '' hidden,''
               @ [CHR 0x27] @ ''lim'' @ [CHR 0x27] @ '' hidden)''"
  proof -
    have cols: "spec_columns (toy_api toy_mixed) (toy_handle []) =
      [\<lparr>col_name = ''v'', declared_type = ''TEXT'', hidden = False\<rparr>,
       \<lparr>col_name = ''n'', declared_type = [], hidden = False\<rparr>,
       \<lparr>col_name = ''k'', declared_type = [], hidden = True\<rparr>,
       \<lparr>col_name = ''2'', declared_type = [], hidden = True\<rparr>,
       \<lparr>col_name = ''lim'', declared_type = [], hidden = True\<rparr>]"
      by (simp add: spec_columns_def spec_output_column_def spec_input_column_def toy_api_def
          toy_mixed_def upto_rec1 fmt_d_def dec_nat.simps digit_char_def)
    show ?thesis unfolding cols
      by (simp add: spec_schema_text_def spec_column_text_def fmt_Q_def)
  qed
  have cols: "sqlite3_column_count (toy_api toy_mixed) (toy_handle []) = 2"
    "sqlite3_column_name (toy_api toy_mixed) (toy_handle []) 0 = Some ''v''"
    "sqlite3_column_name (toy_api toy_mixed) (toy_handle []) 1 = Some ''n''"
    by (simp_all add: toy_api_def toy_mixed_def)
  show ?thesis
    using derived_schema [OF names] cols unfolding rendered by blast
qed

section \<open>Properties of creating and connecting\<close>

lemma create_reaches_schema:
  assumes "well_formed_argument argv" "vtab_malloc_ok mem" "sql_mprintf_ok mem"
    and "sqlite3_prepare_v2 api (query_text argv) = (SQLITE_OK, pStmt)"
    and "sqlite3_stmt_readonly api pStmt"
  shows "statement_vtab_create api mem argv ppVtab pzErr =
    (case build_create_statement api (str_ok mem) pStmt of
       None \<Rightarrow> (SQLITE_NOMEM, None, pzErr)
     | Some create \<Rightarrow>
         if sqlite3_declare_vtab api create \<noteq> SQLITE_OK
         then sqlite_error api mem (sqlite3_declare_vtab api create)
         else (SQLITE_OK,
               Some \<lparr>sql = query_text argv, sql_len = length (argv ! 3) - 2,
                     num_inputs = sqlite3_bind_parameter_count api pStmt,
                     num_outputs = sqlite3_column_count api pStmt\<rparr>,
               pzErr))"
  using assms
  by (simp add: statement_vtab_create_def well_formed_argument_def query_text_def Let_def
      split: option.splits)

text \<open>
  Claim C6, as amended. Once the argument is well formed, the relation and the copy of
  the query text are allocated and the statement is prepared and read only, a result
  column without a retrievable name and a failed allocation of the schema text end the
  creation in the same way: the return code is \<^verbatim>\<open>SQLITE_NOMEM\<close>, no relation is
  handed out and no message is stored.
\<close>

theorem create_schema_failure:
  assumes "well_formed_argument argv" "vtab_malloc_ok mem" "sql_mprintf_ok mem"
    and "sqlite3_prepare_v2 api (query_text argv) = (SQLITE_OK, pStmt)"
    and "sqlite3_stmt_readonly api pStmt"
    and "(\<exists>j. 0 \<le> j \<and> j < sqlite3_column_count api pStmt \<and> sqlite3_column_name api pStmt j = None)
         \<or> \<not> str_ok mem"
  shows "statement_vtab_create api mem argv ppVtab pzErr = (SQLITE_NOMEM, None, pzErr)"
proof -
  have none: "build_create_statement api (str_ok mem) pStmt = None"
  proof (cases "str_ok mem")
    case True
    then obtain j where "0 \<le> j" "j < sqlite3_column_count api pStmt"
      "sqlite3_column_name api pStmt j = None" using assms(6) by auto
    then show ?thesis by (rule build_create_statement_unnamed)
  next
    case False
    then show ?thesis
      by (simp add: build_create_statement_def Let_def split: option.splits)
  qed
  show ?thesis
    unfolding create_reaches_schema [OF assms(1-5)] none by simp
qed

lemma toy_argument:
  "well_formed_argument toy_argv" "query_text toy_argv = ''SELECT v FROM t WHERE k = :k''"
  "length (toy_argv ! 3) - 2 = 28"
  by (simp_all add: well_formed_argument_def query_text_def toy_argv_def)

lemma toy_names:
  "\<forall>j. 0 \<le> j \<and> j < sqlite3_column_count (toy_api (toy_select rows)) pStmt \<longrightarrow>
         sqlite3_column_name (toy_api (toy_select rows)) pStmt j \<noteq> None"
  by (simp add: toy_api_def toy_select_def)

lemma toy_nameless_column:
  "0 \<le> (0::int) \<and> 0 < sqlite3_column_count (toy_api toy_nameless) pStmt
   \<and> sqlite3_column_name (toy_api toy_nameless) pStmt 0 = None"
  by (simp add: toy_api_def toy_nameless_def)

lemma toy_prepare:
  "sqlite3_prepare_v2 (toy_api q) z = (SQLITE_OK, toy_handle (q_rows q))"
  "sqlite3_stmt_readonly (toy_api q) pStmt = q_readonly q"
  "sqlite3_declare_vtab (toy_api q) z = SQLITE_OK"
  "sqlite3_bind_parameter_count (toy_api q) pStmt = int (length (q_params q))"
  "sqlite3_column_count (toy_api q) pStmt = int (length (q_columns q))"
  by (simp_all add: toy_api_def toy_handle_def)

lemma toy_create:
  "statement_vtab_create (toy_api (toy_select [])) memory_ok toy_argv None None
     = (SQLITE_OK, Some toy_vtab, None)"
proof -
  have p: "sqlite3_prepare_v2 (toy_api (toy_select [])) (query_text toy_argv) = (SQLITE_OK, toy_handle [])"
    by (simp add: toy_prepare toy_select_def)
  have r: "sqlite3_stmt_readonly (toy_api (toy_select [])) (toy_handle [])"
    by (simp add: toy_prepare toy_select_def)
  have m: "vtab_malloc_ok memory_ok" "sql_mprintf_ok memory_ok" "str_ok memory_ok = True"
    by (simp_all add: memory_ok_def)
  have b: "build_create_statement (toy_api (toy_select [])) True (toy_handle [])
      = Some (spec_schema_text (spec_columns (toy_api (toy_select [])) (toy_handle [])))"
    by (simp add: build_create_statement_named [OF toy_names])
  have n: "int (length (q_params (toy_select []))) = 1" "int (length (q_columns (toy_select []))) = 1"
    by (simp_all add: toy_select_def)
  show ?thesis
    unfolding create_reaches_schema [OF toy_argument(1) m(1,2) p r] m(3) b
    by (simp add: toy_prepare toy_argument toy_vtab_def n)
qed

text \<open>A query whose only result column has no name, with every allocation succeeding.\<close>

theorem create_schema_failure_witness:
  "well_formed_argument toy_argv
   \<and> sqlite3_prepare_v2 (toy_api toy_nameless) (query_text toy_argv) = (SQLITE_OK, toy_handle [])
   \<and> sqlite3_column_name (toy_api toy_nameless) (toy_handle []) 0 = None
   \<and> statement_vtab_create (toy_api toy_nameless) memory_ok toy_argv None None
       = (SQLITE_NOMEM, None, None)"
proof -
  have p: "sqlite3_prepare_v2 (toy_api toy_nameless) (query_text toy_argv) = (SQLITE_OK, toy_handle [])"
    by (simp add: toy_prepare toy_nameless_def)
  have r: "sqlite3_stmt_readonly (toy_api toy_nameless) (toy_handle [])"
    by (simp add: toy_prepare toy_nameless_def)
  have m: "vtab_malloc_ok memory_ok" "sql_mprintf_ok memory_ok"
    by (simp_all add: memory_ok_def)
  have n: "(\<exists>j. 0 \<le> j \<and> j < sqlite3_column_count (toy_api toy_nameless) (toy_handle [])
             \<and> sqlite3_column_name (toy_api toy_nameless) (toy_handle []) j = None)
         \<or> \<not> str_ok memory_ok"
    using toy_nameless_column [of "toy_handle []"] by blast
  show ?thesis
    using create_schema_failure [OF toy_argument(1) m p r n, of None None] toy_argument(1) p
      toy_nameless_column [of "toy_handle []"]
    by simp
qed

text \<open>
  Claim C6 as stated wants the two failures reported distinctly. A nameless result
  column with all memory available, and a named one with the schema text failing to
  allocate, give the very same result.
\<close>

theorem create_schema_failure_counterexample:
  "statement_vtab_create (toy_api toy_nameless) memory_ok toy_argv None None
     = (SQLITE_NOMEM, None, None)
   \<and> statement_vtab_create (toy_api (toy_select [])) (memory_ok\<lparr>str_ok := False\<rparr>) toy_argv None None
     = (SQLITE_NOMEM, None, None)"
proof -
  have p1: "sqlite3_prepare_v2 (toy_api toy_nameless) (query_text toy_argv) = (SQLITE_OK, toy_handle [])"
    by (simp add: toy_prepare toy_nameless_def)
  have r1: "sqlite3_stmt_readonly (toy_api toy_nameless) (toy_handle [])"
    by (simp add: toy_prepare toy_nameless_def)
  have p2: "sqlite3_prepare_v2 (toy_api (toy_select [])) (query_text toy_argv) = (SQLITE_OK, toy_handle [])"
    by (simp add: toy_prepare toy_select_def)
  have r2: "sqlite3_stmt_readonly (toy_api (toy_select [])) (toy_handle [])"
    by (simp add: toy_prepare toy_select_def)
  have b1: "build_create_statement (toy_api toy_nameless) ok (toy_handle []) = None" for ok
    using toy_nameless_column [of "toy_handle []"] by (intro build_create_statement_unnamed [of 0]) simp_all
  have b2: "build_create_statement (toy_api (toy_select [])) False (toy_handle []) = None"
    by (simp add: build_create_statement_named [OF toy_names])
  have m: "vtab_malloc_ok memory_ok" "sql_mprintf_ok memory_ok"
    "vtab_malloc_ok (memory_ok\<lparr>str_ok := False\<rparr>)" "sql_mprintf_ok (memory_ok\<lparr>str_ok := False\<rparr>)"
    "str_ok (memory_ok\<lparr>str_ok := False\<rparr>) = False"
    by (simp_all add: memory_ok_def)
  show ?thesis
    unfolding create_reaches_schema [OF toy_argument(1) m(1,2) p1 r1]
      create_reaches_schema [OF toy_argument(1) m(3,4) p2 r2] m(5) b1 b2
    by simp
qed

subsection \<open>The outcomes of a declaration\<close>

lemma create_no_statement:
  assumes "length argv < 4 \<or> length (argv ! 3) < 3" and "err_mprintf_ok mem"
  shows "statement_vtab_create api mem argv ppVtab pzErr =
           (SQLITE_MISUSE, ppVtab, Some ''no statement provided'')"
proof -
  have c: "int (length argv) < 4 \<or> length (argv ! 3) < 3" using assms(1) by auto
  show ?thesis
    unfolding statement_vtab_create_def
    by (simp only: c assms(2) if_True if_False not_True_eq_False)
qed

lemma create_not_parenthesized:
  assumes "4 \<le> length argv" and "3 \<le> length (argv ! 3)"
    and "(argv ! 3) ! 0 \<noteq> CHR ''('' \<or> (argv ! 3) ! (length (argv ! 3) - 1) \<noteq> CHR '')''"
    and "err_mprintf_ok mem"
  shows "statement_vtab_create api mem argv ppVtab pzErr =
           (SQLITE_MISUSE, ppVtab, Some ''statement must be parenthesized'')"
proof -
  have c: "\<not> (int (length argv) < 4 \<or> length (argv ! 3) < 3)" using assms(1,2) by auto
  show ?thesis
    unfolding statement_vtab_create_def Let_def
    by (simp only: c assms(3,4) if_True if_False not_True_eq_False)
qed

lemma create_not_readonly:
  assumes "well_formed_argument argv" "vtab_malloc_ok mem" "sql_mprintf_ok mem"
    and "sqlite3_prepare_v2 api (query_text argv) = (SQLITE_OK, pStmt)"
    and "\<not> sqlite3_stmt_readonly api pStmt" and "err_mprintf_ok mem"
  shows "statement_vtab_create api mem argv ppVtab pzErr =
           (SQLITE_ERROR, None, Some ''Statement must be read only.'')"
  using assms
  by (simp add: statement_vtab_create_def well_formed_argument_def query_text_def Let_def)

lemma create_nameless:
  assumes "well_formed_argument argv" "vtab_malloc_ok mem" "sql_mprintf_ok mem"
    and "sqlite3_prepare_v2 api (query_text argv) = (SQLITE_OK, pStmt)"
    and "sqlite3_stmt_readonly api pStmt"
    and "0 \<le> j" "j < sqlite3_column_count api pStmt" "sqlite3_column_name api pStmt j = None"
  shows "statement_vtab_create api mem argv ppVtab pzErr = (SQLITE_NOMEM, None, pzErr)"
  unfolding create_reaches_schema [OF assms(1-5)] build_create_statement_unnamed [OF assms(6-8)]
  by simp

lemma create_declares:
  assumes "well_formed_argument argv" "vtab_malloc_ok mem" "sql_mprintf_ok mem"
    and "sqlite3_prepare_v2 api (query_text argv) = (SQLITE_OK, pStmt)"
    and "sqlite3_stmt_readonly api pStmt"
    and "str_ok mem"
    and "\<forall>j. 0 \<le> j \<and> j < sqlite3_column_count api pStmt \<longrightarrow>
              sqlite3_column_name api pStmt j \<noteq> None"
  shows "statement_vtab_create api mem argv ppVtab pzErr =
    (if sqlite3_declare_vtab api (spec_schema_text (spec_columns api pStmt)) = SQLITE_OK
     then (SQLITE_OK,
           Some \<lparr>sql = query_text argv, sql_len = length (argv ! 3) - 2,
                 num_inputs = sqlite3_bind_parameter_count api pStmt,
                 num_outputs = sqlite3_column_count api pStmt\<rparr>,
           pzErr)
     else if err_mprintf_ok mem
     then (sqlite3_declare_vtab api (spec_schema_text (spec_columns api pStmt)), None,
           Some (sqlite3_errmsg api))
     else (SQLITE_NOMEM, None, None))"
proof -
  have b: "build_create_statement api True pStmt
      = Some (spec_schema_text (spec_columns api pStmt))"
    by (simp add: build_create_statement_named [OF assms(7)])
  show ?thesis
    unfolding create_reaches_schema [OF assms(1-5)] assms(6) [THEN eqTrueI] b
    by (simp add: sqlite_error_def)
qed

text \<open>
  Claim C7, as amended. Take a declaration whose argument is well formed, whose query
  the host prepares as a read-only statement with every result column named, and for
  which the allocations succeed. If the host accepts the derived schema, the relation
  is created: the return code is \<^verbatim>\<open>SQLITE_OK\<close> and the relation holds the query text,
  the statement's parameter count as \<^verbatim>\<open>num_inputs\<close> and its result-column count as
  \<^verbatim>\<open>num_outputs\<close>. If the host refuses the derived schema, creation fails with the
  host's code and message and no relation. With the message allocated, a missing or
  too short argument fails with the message ``no statement provided'', an argument not
  in parentheses with ``statement must be parenthesized'', and a statement that is not
  read only with ``Statement must be read only.''.
\<close>

theorem create_contract:
  "(well_formed_argument argv \<and> vtab_malloc_ok mem \<and> sql_mprintf_ok mem \<and> str_ok mem
      \<and> sqlite3_prepare_v2 api (query_text argv) = (SQLITE_OK, pStmt)
      \<and> sqlite3_stmt_readonly api pStmt
      \<and> (\<forall>j. 0 \<le> j \<and> j < sqlite3_column_count api pStmt \<longrightarrow>
               sqlite3_column_name api pStmt j \<noteq> None)
      \<and> sqlite3_declare_vtab api (spec_schema_text (spec_columns api pStmt)) = SQLITE_OK
      \<longrightarrow> statement_vtab_create api mem argv ppVtab pzErr =
            (SQLITE_OK,
             Some \<lparr>sql = query_text argv, sql_len = length (argv ! 3) - 2,
                   num_inputs = sqlite3_bind_parameter_count api pStmt,
                   num_outputs = sqlite3_column_count api pStmt\<rparr>,
             pzErr))
   \<and> (well_formed_argument argv \<and> vtab_malloc_ok mem \<and> sql_mprintf_ok mem \<and> str_ok mem
      \<and> sqlite3_prepare_v2 api (query_text argv) = (SQLITE_OK, pStmt)
      \<and> sqlite3_stmt_readonly api pStmt
      \<and> (\<forall>j. 0 \<le> j \<and> j < sqlite3_column_count api pStmt \<longrightarrow>
               sqlite3_column_name api pStmt j \<noteq> None)
      \<and> sqlite3_declare_vtab api (spec_schema_text (spec_columns api pStmt)) \<noteq> SQLITE_OK
      \<and> err_mprintf_ok mem
      \<longrightarrow> statement_vtab_create api mem argv ppVtab pzErr =
            (sqlite3_declare_vtab api (spec_schema_text (spec_columns api pStmt)), None,
             Some (sqlite3_errmsg api)))
   \<and> ((length argv < 4 \<or> length (argv ! 3) < 3) \<and> err_mprintf_ok mem
      \<longrightarrow> statement_vtab_create api mem argv ppVtab pzErr =
            (SQLITE_MISUSE, ppVtab, Some ''no statement provided''))
   \<and> (4 \<le> length argv \<and> 3 \<le> length (argv ! 3)
      \<and> ((argv ! 3) ! 0 \<noteq> CHR ''('' \<or> (argv ! 3) ! (length (argv ! 3) - 1) \<noteq> CHR '')'')
      \<and> err_mprintf_ok mem
      \<longrightarrow> statement_vtab_create api mem argv ppVtab pzErr =
            (SQLITE_MISUSE, ppVtab, Some ''statement must be parenthesized''))
   \<and> (well_formed_argument argv \<and> vtab_malloc_ok mem \<and> sql_mprintf_ok mem
      \<and> sqlite3_prepare_v2 api (query_text argv) = (SQLITE_OK, pStmt)
      \<and> \<not> sqlite3_stmt_readonly api pStmt \<and> err_mprintf_ok mem
      \<longrightarrow> statement_vtab_create api mem argv ppVtab pzErr =
            (SQLITE_ERROR, None, Some ''Statement must be read only.''))"
proof (intro conjI impI)
  assume a: "well_formed_argument argv \<and> vtab_malloc_ok mem \<and> sql_mprintf_ok mem \<and> str_ok mem
      \<and> sqlite3_prepare_v2 api (query_text argv) = (SQLITE_OK, pStmt)
      \<and> sqlite3_stmt_readonly api pStmt
      \<and> (\<forall>j. 0 \<le> j \<and> j < sqlite3_column_count api pStmt \<longrightarrow>
               sqlite3_column_name api pStmt j \<noteq> None)
      \<and> sqlite3_declare_vtab api (spec_schema_text (spec_columns api pStmt)) = SQLITE_OK"
  then have "statement_vtab_create api mem argv ppVtab pzErr =
    (if sqlite3_declare_vtab api (spec_schema_text (spec_columns api pStmt)) = SQLITE_OK
     then (SQLITE_OK,
           Some \<lparr>sql = query_text argv, sql_len = length (argv ! 3) - 2,
                 num_inputs = sqlite3_bind_parameter_count api pStmt,
                 num_outputs = sqlite3_column_count api pStmt\<rparr>,
           pzErr)
     else if err_mprintf_ok mem
     then (sqlite3_declare_vtab api (spec_schema_text (spec_columns api pStmt)), None,
           Some (sqlite3_errmsg api))
     else (SQLITE_NOMEM, None, None))"
    by (intro create_declares) simp_all
  then show "statement_vtab_create api mem argv ppVtab pzErr =
            (SQLITE_OK,
             Some \<lparr>sql = query_text argv, sql_len = length (argv ! 3) - 2,
                   num_inputs = sqlite3_bind_parameter_count api pStmt,
                   num_outputs = sqlite3_column_count api pStmt\<rparr>,
             pzErr)"
    using a by simp
next
  assume a: "well_formed_argument argv \<and> vtab_malloc_ok mem \<and> sql_mprintf_ok mem \<and> str_ok mem
      \<and> sqlite3_prepare_v2 api (query_text argv) = (SQLITE_OK, pStmt)
      \<and> sqlite3_stmt_readonly api pStmt
      \<and> (\<forall>j. 0 \<le> j \<and> j < sqlite3_column_count api pStmt \<longrightarrow>
               sqlite3_column_name api pStmt j \<noteq> None)
      \<and> sqlite3_declare_vtab api (spec_schema_text (spec_columns api pStmt)) \<noteq> SQLITE_OK
      \<and> err_mprintf_ok mem"
  then have "statement_vtab_create api mem argv ppVtab pzErr =
    (if sqlite3_declare_vtab api (spec_schema_text (spec_columns api pStmt)) = SQLITE_OK
     then (SQLITE_OK,
           Some \<lparr>sql = query_text argv, sql_len = length (argv ! 3) - 2,
                 num_inputs = sqlite3_bind_parameter_count api pStmt,
                 num_outputs = sqlite3_column_count api pStmt\<rparr>,
           pzErr)
     else if err_mprintf_ok mem
     then (sqlite3_declare_vtab api (spec_schema_text (spec_columns api pStmt)), None,
           Some (sqlite3_errmsg api))
     else (SQLITE_NOMEM, None, None))"
    by (intro create_declares) simp_all
  then show "statement_vtab_create api mem argv ppVtab pzErr =
            (sqlite3_declare_vtab api (spec_schema_text (spec_columns api pStmt)), None,
             Some (sqlite3_errmsg api))"
    using a by simp
next
  assume "(length argv < 4 \<or> length (argv ! 3) < 3) \<and> err_mprintf_ok mem"
  then show "statement_vtab_create api mem argv ppVtab pzErr =
            (SQLITE_MISUSE, ppVtab, Some ''no statement provided'')"
    by (intro create_no_statement) simp_all
next
  assume "4 \<le> length argv \<and> 3 \<le> length (argv ! 3)
      \<and> ((argv ! 3) ! 0 \<noteq> CHR ''('' \<or> (argv ! 3) ! (length (argv ! 3) - 1) \<noteq> CHR '')'')
      \<and> err_mprintf_ok mem"
  then show "statement_vtab_create api mem argv ppVtab pzErr =
            (SQLITE_MISUSE, ppVtab, Some ''statement must be parenthesized'')"
    by (intro create_not_parenthesized) simp_all
next
  assume "well_formed_argument argv \<and> vtab_malloc_ok mem \<and> sql_mprintf_ok mem
      \<and> sqlite3_prepare_v2 api (query_text argv) = (SQLITE_OK, pStmt)
      \<and> \<not> sqlite3_stmt_readonly api pStmt \<and> err_mprintf_ok mem"
  then show "statement_vtab_create api mem argv ppVtab pzErr =
            (SQLITE_ERROR, None, Some ''Statement must be read only.'')"
    by (intro create_not_readonly [where pStmt = pStmt]) simp_all
qed

text \<open>
  Claim C10. Connecting is creating: on every input \<^verbatim>\<open>statement_vtab_connect\<close> returns
  what \<^verbatim>\<open>statement_vtab_create\<close> returns. So every check of a creation is run again
  on a connect: a missing or too short argument and an argument not in parentheses
  fail with their messages and \<^verbatim>\<open>SQLITE_MISUSE\<close>, a statement that is not read only
  fails with \<^verbatim>\<open>SQLITE_ERROR\<close>, a result column without a name fails with
  \<^verbatim>\<open>SQLITE_NOMEM\<close>; and the schema is derived anew from the statement prepared on
  this connect and handed to the host, whose answer decides between the relation with
  the statement's counts and the host's error.
\<close>

theorem connect_is_create:
  "statement_vtab_connect api mem argv ppVtab pzErr = statement_vtab_create api mem argv ppVtab pzErr
   \<and> ((length argv < 4 \<or> length (argv ! 3) < 3) \<and> err_mprintf_ok mem
      \<longrightarrow> statement_vtab_connect api mem argv ppVtab pzErr =
            (SQLITE_MISUSE, ppVtab, Some ''no statement provided''))
   \<and> (4 \<le> length argv \<and> 3 \<le> length (argv ! 3)
      \<and> ((argv ! 3) ! 0 \<noteq> CHR ''('' \<or> (argv ! 3) ! (length (argv ! 3) - 1) \<noteq> CHR '')'')
      \<and> err_mprintf_ok mem
      \<longrightarrow> statement_vtab_connect api mem argv ppVtab pzErr =
            (SQLITE_MISUSE, ppVtab, Some ''statement must be parenthesized''))
   \<and> (well_formed_argument argv \<and> vtab_malloc_ok mem \<and> sql_mprintf_ok mem
      \<and> sqlite3_prepare_v2 api (query_text argv) = (SQLITE_OK, pStmt)
      \<and> \<not> sqlite3_stmt_readonly api pStmt \<and> err_mprintf_ok mem
      \<longrightarrow> statement_vtab_connect api mem argv ppVtab pzErr =
            (SQLITE_ERROR, None, Some ''Statement must be read only.''))
   \<and> (well_formed_argument argv \<and> vtab_malloc_ok mem \<and> sql_mprintf_ok mem
      \<and> sqlite3_prepare_v2 api (query_text argv) = (SQLITE_OK, pStmt)
      \<and> sqlite3_stmt_readonly api pStmt
      \<and> 0 \<le> j \<and> j < sqlite3_column_count api pStmt \<and> sqlite3_column_name api pStmt j = None
      \<longrightarrow> statement_vtab_connect api mem argv ppVtab pzErr = (SQLITE_NOMEM, None, pzErr))
   \<and> (well_formed_argument argv \<and> vtab_malloc_ok mem \<and> sql_mprintf_ok mem \<and> str_ok mem
      \<and> sqlite3_prepare_v2 api (query_text argv) = (SQLITE_OK, pStmt)
      \<and> sqlite3_stmt_readonly api pStmt
      \<and> (\<forall>i. 0 \<le> i \<and> i < sqlite3_column_count api pStmt \<longrightarrow>
               sqlite3_column_name api pStmt i \<noteq> None)
      \<longrightarrow> statement_vtab_connect api mem argv ppVtab pzErr =
            (if sqlite3_declare_vtab api (spec_schema_text (spec_columns api pStmt)) = SQLITE_OK
             then (SQLITE_OK,
                   Some \<lparr>sql = query_text argv, sql_len = length (argv ! 3) - 2,
                         num_inputs = sqlite3_bind_parameter_count api pStmt,
                         num_outputs = sqlite3_column_count api pStmt\<rparr>,
                   pzErr)
             else if err_mprintf_ok mem
             then (sqlite3_declare_vtab api (spec_schema_text (spec_columns api pStmt)), None,
                   Some (sqlite3_errmsg api))
             else (SQLITE_NOMEM, None, None)))"
  unfolding statement_vtab_connect_def
proof (intro conjI impI)
  show "statement_vtab_create api mem argv ppVtab pzErr = statement_vtab_create api mem argv ppVtab pzErr"
    by (rule refl)
next
  assume "(length argv < 4 \<or> length (argv ! 3) < 3) \<and> err_mprintf_ok mem"
  then show "statement_vtab_create api mem argv ppVtab pzErr =
            (SQLITE_MISUSE, ppVtab, Some ''no statement provided'')"
    by (intro create_no_statement) simp_all
next
  assume "4 \<le> length argv \<and> 3 \<le> length (argv ! 3)
      \<and> ((argv ! 3) ! 0 \<noteq> CHR ''('' \<or> (argv ! 3) ! (length (argv ! 3) - 1) \<noteq> CHR '')'')
      \<and> err_mprintf_ok mem"
  then show "statement_vtab_create api mem argv ppVtab pzErr =
            (SQLITE_MISUSE, ppVtab, Some ''statement must be parenthesized'')"
    by (intro create_not_parenthesized) simp_all
next
  assume "well_formed_argument argv \<and> vtab_malloc_ok mem \<and> sql_mprintf_ok mem
      \<and> sqlite3_prepare_v2 api (query_text argv) = (SQLITE_OK, pStmt)
      \<and> \<not> sqlite3_stmt_readonly api pStmt \<and> err_mprintf_ok mem"
  then show "statement_vtab_create api mem argv ppVtab pzErr =
            (SQLITE_ERROR, None, Some ''Statement must be read only.'')"
    by (intro create_not_readonly [where pStmt = pStmt]) simp_all
next
  assume "well_formed_argument argv \<and> vtab_malloc_ok mem \<and> sql_mprintf_ok mem
      \<and> sqlite3_prepare_v2 api (query_text argv) = (SQLITE_OK, pStmt)
      \<and> sqlite3_stmt_readonly api pStmt
      \<and> 0 \<le> j \<and> j < sqlite3_column_count api pStmt \<and> sqlite3_column_name api pStmt j = None"
  then show "statement_vtab_create api mem argv ppVtab pzErr = (SQLITE_NOMEM, None, pzErr)"
    by (intro create_nameless [where pStmt = pStmt and j = j]) simp_all
next
  assume "well_formed_argument argv \<and> vtab_malloc_ok mem \<and> sql_mprintf_ok mem \<and> str_ok mem
      \<and> sqlite3_prepare_v2 api (query_text argv) = (SQLITE_OK, pStmt)
      \<and> sqlite3_stmt_readonly api pStmt
      \<and> (\<forall>i. 0 \<le> i \<and> i < sqlite3_column_count api pStmt \<longrightarrow>
               sqlite3_column_name api pStmt i \<noteq> None)"
  then show "statement_vtab_create api mem argv ppVtab pzErr =
            (if sqlite3_declare_vtab api (spec_schema_text (spec_columns api pStmt)) = SQLITE_OK
             then (SQLITE_OK,
                   Some \<lparr>sql = query_text argv, sql_len = length (argv ! 3) - 2,
                         num_inputs = sqlite3_bind_parameter_count api pStmt,
                         num_outputs = sqlite3_column_count api pStmt\<rparr>,
                   pzErr)
             else if err_mprintf_ok mem
             then (sqlite3_declare_vtab api (spec_schema_text (spec_columns api pStmt)), None,
                   Some (sqlite3_errmsg api))
             else (SQLITE_NOMEM, None, None))"
    by (intro create_declares) simp_all
qed

lemma strict_fields:
  "sqlite3_prepare_v2 (strict_api q) z = (SQLITE_OK, toy_handle (q_rows q))"
  "sqlite3_stmt_readonly (strict_api q) pStmt = q_readonly q"
  "sqlite3_bind_parameter_count (strict_api q) pStmt = int (length (q_params q))"
  "sqlite3_column_count (strict_api q) pStmt = int (length (q_columns q))"
  "sqlite3_errmsg (strict_api q) = ''duplicate column name''"
  "sqlite3_declare_vtab (strict_api q) z =
     (if distinct (quoted_names z False []) then SQLITE_OK else SQLITE_ERROR)"
  by (simp_all add: strict_api_def toy_api_def toy_handle_def)

lemma dup_argument:
  "well_formed_argument dup_argv" "query_text dup_argv = ''SELECT k, v FROM t WHERE k = :k''"
  "length (dup_argv ! 3) - 2 = 31"
  by (simp_all add: well_formed_argument_def query_text_def dup_argv_def)

lemma dup_names:
  "\<forall>j. 0 \<le> j \<and> j < sqlite3_column_count (strict_api toy_dup) pStmt \<longrightarrow>
         sqlite3_column_name (strict_api toy_dup) pStmt j \<noteq> None"
proof (intro allI impI)
  fix j :: int
  assume "0 \<le> j \<and> j < sqlite3_column_count (strict_api toy_dup) pStmt"
  then have "j = 0 \<or> j = 1" by (simp add: strict_fields toy_dup_def) arith
  then show "sqlite3_column_name (strict_api toy_dup) pStmt j \<noteq> None"
    by (auto simp: strict_api_def toy_api_def toy_dup_def)
qed

lemma dup_schema:
  "spec_schema_text (spec_columns (strict_api toy_dup) (toy_handle []))
     = ''CREATE TABLE x( '' @ [CHR 0x27] @ ''k'' @ [CHR 0x27] @ '' INT,''
         @ [CHR 0x27] @ ''v'' @ [CHR 0x27] @ '' TEXT,''
         @ [CHR 0x27] @ ''k'' @ [CHR 0x27] @ '' hidden)''"
proof -
  have cols: "spec_columns (strict_api toy_dup) (toy_handle []) =
      [\<lparr>col_name = ''k'', declared_type = ''INT'', hidden = False\<rparr>,
       \<lparr>col_name = ''v'', declared_type = ''TEXT'', hidden = False\<rparr>,
       \<lparr>col_name = ''k'', declared_type = [], hidden = True\<rparr>]"
    by (simp add: spec_columns_def spec_output_column_def spec_input_column_def strict_api_def
        toy_api_def toy_dup_def upto_rec1)
  show ?thesis unfolding cols
    by (simp add: spec_schema_text_def spec_column_text_def fmt_Q_def)
qed

lemma dup_rejected:
  "sqlite3_declare_vtab (strict_api toy_dup)
     (spec_schema_text (spec_columns (strict_api toy_dup) (toy_handle []))) = SQLITE_ERROR"
  unfolding dup_schema by (simp add: strict_fields)

lemma dup_create:
  "statement_vtab_create (strict_api toy_dup) memory_ok dup_argv None None
     = (SQLITE_ERROR, None, Some ''duplicate column name'')"
proof -
  have p: "sqlite3_prepare_v2 (strict_api toy_dup) (query_text dup_argv) = (SQLITE_OK, toy_handle [])"
    by (simp add: strict_fields toy_dup_def)
  have r: "sqlite3_stmt_readonly (strict_api toy_dup) (toy_handle [])"
    by (simp add: strict_fields toy_dup_def)
  have m: "vtab_malloc_ok memory_ok" "sql_mprintf_ok memory_ok" "str_ok memory_ok"
    "err_mprintf_ok memory_ok"
    by (simp_all add: memory_ok_def)
  show ?thesis
    unfolding create_declares [OF dup_argument(1) m(1,2) p r m(3) dup_names] dup_rejected
    by (simp add: m(4) strict_fields SQLITE_OK_def SQLITE_ERROR_def)
qed

text \<open>
  Claim C7 as stated has every valid read-only query in parentheses create its
  relation. The query \<^verbatim>\<open>(SELECT k, v FROM t WHERE k = :k)\<close> is prepared, is read only,
  has all its columns named and finds all the memory it needs; its derived schema
  names the column \<open>k\<close> twice, the host refuses it, and the creation fails.
\<close>

theorem create_contract_counterexample:
  "well_formed_argument dup_argv
   \<and> sqlite3_prepare_v2 (strict_api toy_dup) (query_text dup_argv) = (SQLITE_OK, toy_handle [])
   \<and> sqlite3_stmt_readonly (strict_api toy_dup) (toy_handle [])
   \<and> build_create_statement (strict_api toy_dup) True (toy_handle [])
       = Some (''CREATE TABLE x( '' @ [CHR 0x27] @ ''k'' @ [CHR 0x27] @ '' INT,''
               @ [CHR 0x27] @ ''v'' @ [CHR 0x27] @ '' TEXT,''
               @ [CHR 0x27] @ ''k'' @ [CHR 0x27] @ '' hidden)'')
   \<and> statement_vtab_create (strict_api toy_dup) memory_ok dup_argv None None
       = (SQLITE_ERROR, None, Some ''duplicate column name'')
   \<and> SQLITE_ERROR \<noteq> SQLITE_OK"
proof -
  have p: "sqlite3_prepare_v2 (strict_api toy_dup) (query_text dup_argv) = (SQLITE_OK, toy_handle [])"
    by (simp add: strict_fields toy_dup_def)
  have r: "sqlite3_stmt_readonly (strict_api toy_dup) (toy_handle [])"
    by (simp add: strict_fields toy_dup_def)
  have b: "build_create_statement (strict_api toy_dup) True (toy_handle [])
       = Some (''CREATE TABLE x( '' @ [CHR 0x27] @ ''k'' @ [CHR 0x27] @ '' INT,''
               @ [CHR 0x27] @ ''v'' @ [CHR 0x27] @ '' TEXT,''
               @ [CHR 0x27] @ ''k'' @ [CHR 0x27] @ '' hidden)'')"
    unfolding build_create_statement_named [OF dup_names] dup_schema by simp
  have ne: "SQLITE_ERROR \<noteq> SQLITE_OK" by (simp add: SQLITE_OK_def SQLITE_ERROR_def)
  show ?thesis using dup_argument(1) p r b dup_create ne by blast
qed

text \<open>
  The query \<^verbatim>\<open>(SELECT v FROM t WHERE k = :k)\<close>, the query with the column \<open>k\<close> twice
  on a host that refuses it, the arguments \<^verbatim>\<open>()\<close> and \<^verbatim>\<open>not-parenthesized\<close>, and a
  statement that writes.
\<close>

theorem create_contract_witness:
  "statement_vtab_create (toy_api (toy_select [])) memory_ok toy_argv None None
     = (SQLITE_OK, Some toy_vtab, None)
   \<and> statement_vtab_create (strict_api toy_dup) memory_ok dup_argv None None
     = (SQLITE_ERROR, None, Some ''duplicate column name'')
   \<and> statement_vtab_create (toy_api (toy_select [])) memory_ok
        [''statement'', ''main'', ''x'', ''()''] None None
     = (SQLITE_MISUSE, None, Some ''no statement provided'')
   \<and> statement_vtab_create (toy_api (toy_select [])) memory_ok
        [''statement'', ''main'', ''x'', ''not-parenthesized''] None None
     = (SQLITE_MISUSE, None, Some ''statement must be parenthesized'')
   \<and> statement_vtab_create (toy_api toy_update) memory_ok toy_argv None None
     = (SQLITE_ERROR, None, Some ''Statement must be read only.'')"
proof -
  have h1: "well_formed_argument toy_argv \<and> vtab_malloc_ok memory_ok \<and> sql_mprintf_ok memory_ok
      \<and> str_ok memory_ok
      \<and> sqlite3_prepare_v2 (toy_api (toy_select [])) (query_text toy_argv) = (SQLITE_OK, toy_handle [])
      \<and> sqlite3_stmt_readonly (toy_api (toy_select [])) (toy_handle [])
      \<and> (\<forall>j. 0 \<le> j \<and> j < sqlite3_column_count (toy_api (toy_select [])) (toy_handle []) \<longrightarrow>
               sqlite3_column_name (toy_api (toy_select [])) (toy_handle []) j \<noteq> None)
      \<and> sqlite3_declare_vtab (toy_api (toy_select []))
            (spec_schema_text (spec_columns (toy_api (toy_select [])) (toy_handle []))) = SQLITE_OK"
    using toy_names [of "[]" "toy_handle []"]
    by (simp add: toy_argument toy_prepare memory_ok_def toy_select_def)
  have h2: "well_formed_argument dup_argv \<and> vtab_malloc_ok memory_ok \<and> sql_mprintf_ok memory_ok
      \<and> str_ok memory_ok
      \<and> sqlite3_prepare_v2 (strict_api toy_dup) (query_text dup_argv) = (SQLITE_OK, toy_handle [])
      \<and> sqlite3_stmt_readonly (strict_api toy_dup) (toy_handle [])
      \<and> (\<forall>j. 0 \<le> j \<and> j < sqlite3_column_count (strict_api toy_dup) (toy_handle []) \<longrightarrow>
               sqlite3_column_name (strict_api toy_dup) (toy_handle []) j \<noteq> None)
      \<and> sqlite3_declare_vtab (strict_api toy_dup)
            (spec_schema_text (spec_columns (strict_api toy_dup) (toy_handle []))) \<noteq> SQLITE_OK
      \<and> err_mprintf_ok memory_ok"
  proof -
    have p: "sqlite3_prepare_v2 (strict_api toy_dup) (query_text dup_argv) = (SQLITE_OK, toy_handle [])"
      by (simp add: strict_fields toy_dup_def)
    have r: "sqlite3_stmt_readonly (strict_api toy_dup) (toy_handle [])"
      by (simp add: strict_fields toy_dup_def)
    have m: "vtab_malloc_ok memory_ok" "sql_mprintf_ok memory_ok" "str_ok memory_ok"
      "err_mprintf_ok memory_ok"
      by (simp_all add: memory_ok_def)
    have ne: "sqlite3_declare_vtab (strict_api toy_dup)
            (spec_schema_text (spec_columns (strict_api toy_dup) (toy_handle []))) \<noteq> SQLITE_OK"
      unfolding dup_rejected by (simp add: SQLITE_OK_def SQLITE_ERROR_def)
    show ?thesis
      using dup_argument(1) m p r dup_names [of "toy_handle []"] ne by blast
  qed
  have h3: "(length [''statement'', ''main'', ''x'', ''()''] < 4
       \<or> length ([''statement'', ''main'', ''x'', ''()''] ! 3) < 3) \<and> err_mprintf_ok memory_ok"
    by (simp add: memory_ok_def)
  have h4: "4 \<le> length [''statement'', ''main'', ''x'', ''not-parenthesized'']
      \<and> 3 \<le> length ([''statement'', ''main'', ''x'', ''not-parenthesized''] ! 3)
      \<and> (([''statement'', ''main'', ''x'', ''not-parenthesized''] ! 3) ! 0 \<noteq> CHR ''(''
          \<or> ([''statement'', ''main'', ''x'', ''not-parenthesized''] ! 3)
               ! (length ([''statement'', ''main'', ''x'', ''not-parenthesized''] ! 3) - 1) \<noteq> CHR '')'')
      \<and> err_mprintf_ok memory_ok"
    by (simp add: memory_ok_def)
  have h5: "well_formed_argument toy_argv \<and> vtab_malloc_ok memory_ok \<and> sql_mprintf_ok memory_ok
      \<and> sqlite3_prepare_v2 (toy_api toy_update) (query_text toy_argv) = (SQLITE_OK, toy_handle [])
      \<and> \<not> sqlite3_stmt_readonly (toy_api toy_update) (toy_handle []) \<and> err_mprintf_ok memory_ok"
    by (simp add: toy_argument toy_prepare memory_ok_def toy_update_def)
  note a = create_contract [where api = "toy_api (toy_select [])" and mem = memory_ok
      and argv = toy_argv and pStmt = "toy_handle []" and ppVtab = None and pzErr = None,
      THEN conjunct1, THEN mp, OF h1]
  note b = create_contract [where api = "strict_api toy_dup" and mem = memory_ok
      and argv = dup_argv and pStmt = "toy_handle []" and ppVtab = None and pzErr = None,
      THEN conjunct2, THEN conjunct1, THEN mp, OF h2]
  note c = create_contract [where api = "toy_api (toy_select [])" and mem = memory_ok
      and argv = "[''statement'', ''main'', ''x'', ''()'']" and pStmt = "toy_handle []"
      and ppVtab = None and pzErr = None,
      THEN conjunct2, THEN conjunct2, THEN conjunct1, THEN mp, OF h3]
  note d = create_contract [where api = "toy_api (toy_select [])" and mem = memory_ok
      and argv = "[''statement'', ''main'', ''x'', ''not-parenthesized'']" and pStmt = "toy_handle []"
      and ppVtab = None and pzErr = None,
      THEN conjunct2, THEN conjunct2, THEN conjunct2, THEN conjunct1, THEN mp, OF h4]
  note e = create_contract [where api = "toy_api toy_update" and mem = memory_ok
      and argv = toy_argv and pStmt = "toy_handle []" and ppVtab = None and pzErr = None,
      THEN conjunct2, THEN conjunct2, THEN conjunct2, THEN conjunct2, THEN mp, OF h5]
  have a': "statement_vtab_create (toy_api (toy_select [])) memory_ok toy_argv None None
     = (SQLITE_OK, Some toy_vtab, None)"
    unfolding a by (simp add: toy_argument toy_prepare toy_vtab_def toy_select_def)
  have b': "statement_vtab_create (strict_api toy_dup) memory_ok dup_argv None None
     = (SQLITE_ERROR, None, Some ''duplicate column name'')"
    unfolding b dup_rejected by (simp add: strict_fields(5))
  show ?thesis using a' b' c d e by simp
qed

text \<open>
  Connecting with the same six declarations: the relation of
  \<^verbatim>\<open>(SELECT v FROM t WHERE k = :k)\<close>, the schema the host refuses, the two malformed
  arguments, the statement that writes, and the query with a nameless column.
\<close>

theorem connect_is_create_witness:
  "statement_vtab_connect (toy_api (toy_select [])) memory_ok toy_argv None None
     = (SQLITE_OK, Some toy_vtab, None)
   \<and> statement_vtab_connect (strict_api toy_dup) memory_ok dup_argv None None
     = (SQLITE_ERROR, None, Some ''duplicate column name'')
   \<and> statement_vtab_connect (toy_api (toy_select [])) memory_ok
        [''statement'', ''main'', ''x'', ''()''] None None
     = (SQLITE_MISUSE, None, Some ''no statement provided'')
   \<and> statement_vtab_connect (toy_api (toy_select [])) memory_ok
        [''statement'', ''main'', ''x'', ''not-parenthesized''] None None
     = (SQLITE_MISUSE, None, Some ''statement must be parenthesized'')
   \<and> statement_vtab_connect (toy_api toy_update) memory_ok toy_argv None None
     = (SQLITE_ERROR, None, Some ''Statement must be read only.'')
   \<and> statement_vtab_connect (toy_api toy_nameless) memory_ok toy_argv None None
     = (SQLITE_NOMEM, None, None)"
proof -
  have h1: "well_formed_argument toy_argv \<and> vtab_malloc_ok memory_ok \<and> sql_mprintf_ok memory_ok
      \<and> str_ok memory_ok
      \<and> sqlite3_prepare_v2 (toy_api (toy_select [])) (query_text toy_argv) = (SQLITE_OK, toy_handle [])
      \<and> sqlite3_stmt_readonly (toy_api (toy_select [])) (toy_handle [])
      \<and> (\<forall>i. 0 \<le> i \<and> i < sqlite3_column_count (toy_api (toy_select [])) (toy_handle []) \<longrightarrow>
               sqlite3_column_name (toy_api (toy_select [])) (toy_handle []) i \<noteq> None)"
    using toy_names [of "[]" "toy_handle []"]
    by (simp add: toy_argument toy_prepare memory_ok_def toy_select_def)
  have h2: "well_formed_argument dup_argv \<and> vtab_malloc_ok memory_ok \<and> sql_mprintf_ok memory_ok
      \<and> str_ok memory_ok
      \<and> sqlite3_prepare_v2 (strict_api toy_dup) (query_text dup_argv) = (SQLITE_OK, toy_handle [])
      \<and> sqlite3_stmt_readonly (strict_api toy_dup) (toy_handle [])
      \<and> (\<forall>i. 0 \<le> i \<and> i < sqlite3_column_count (strict_api toy_dup) (toy_handle []) \<longrightarrow>
               sqlite3_column_name (strict_api toy_dup) (toy_handle []) i \<noteq> None)"
  proof -
    have p: "sqlite3_prepare_v2 (strict_api toy_dup) (query_text dup_argv) = (SQLITE_OK, toy_handle [])"
      by (simp add: strict_fields toy_dup_def)
    have r: "sqlite3_stmt_readonly (strict_api toy_dup) (toy_handle [])"
      by (simp add: strict_fields toy_dup_def)
    have m: "vtab_malloc_ok memory_ok" "sql_mprintf_ok memory_ok" "str_ok memory_ok"
      by (simp_all add: memory_ok_def)
    show ?thesis
      using dup_argument(1) m p r dup_names [of "toy_handle []"] by blast
  qed
  have h3: "(length [''statement'', ''main'', ''x'', ''()''] < 4
       \<or> length ([''statement'', ''main'', ''x'', ''()''] ! 3) < 3) \<and> err_mprintf_ok memory_ok"
    by (simp add: memory_ok_def)
  have h4: "4 \<le> length [''statement'', ''main'', ''x'', ''not-parenthesized'']
      \<and> 3 \<le> length ([''statement'', ''main'', ''x'', ''not-parenthesized''] ! 3)
      \<and> (([''statement'', ''main'', ''x'', ''not-parenthesized''] ! 3) ! 0 \<noteq> CHR ''(''
          \<or> ([''statement'', ''main'', ''x'', ''not-parenthesized''] ! 3)
               ! (length ([''statement'', ''main'', ''x'', ''not-parenthesized''] ! 3) - 1) \<noteq> CHR '')'')
      \<and> err_mprintf_ok memory_ok"
    by (simp add: memory_ok_def)
  have h5: "well_formed_argument toy_argv \<and> vtab_malloc_ok memory_ok \<and> sql_mprintf_ok memory_ok
      \<and> sqlite3_prepare_v2 (toy_api toy_update) (query_text toy_argv) = (SQLITE_OK, toy_handle [])
      \<and> \<not> sqlite3_stmt_readonly (toy_api toy_update) (toy_handle []) \<and> err_mprintf_ok memory_ok"
    by (simp add: toy_argument toy_prepare memory_ok_def toy_update_def)
  have h6: "well_formed_argument toy_argv \<and> vtab_malloc_ok memory_ok \<and> sql_mprintf_ok memory_ok
      \<and> sqlite3_prepare_v2 (toy_api toy_nameless) (query_text toy_argv) = (SQLITE_OK, toy_handle [])
      \<and> sqlite3_stmt_readonly (toy_api toy_nameless) (toy_handle [])
      \<and> 0 \<le> (0::int) \<and> 0 < sqlite3_column_count (toy_api toy_nameless) (toy_handle [])
      \<and> sqlite3_column_name (toy_api toy_nameless) (toy_handle []) 0 = None"
    using toy_nameless_column [of "toy_handle []"]
    by (simp add: toy_argument toy_prepare memory_ok_def toy_nameless_def)
  note a = connect_is_create [where api = "toy_api (toy_select [])" and mem = memory_ok
      and argv = toy_argv and pStmt = "toy_handle []" and ppVtab = None and pzErr = None,
      THEN conjunct2, THEN conjunct2, THEN conjunct2, THEN conjunct2, THEN conjunct2, THEN mp, OF h1]
  note b = connect_is_create [where api = "strict_api toy_dup" and mem = memory_ok
      and argv = dup_argv and pStmt = "toy_handle []" and ppVtab = None and pzErr = None,
      THEN conjunct2, THEN conjunct2, THEN conjunct2, THEN conjunct2, THEN conjunct2, THEN mp, OF h2]
  note c = connect_is_create [where api = "toy_api (toy_select [])" and mem = memory_ok
      and argv = "[''statement'', ''main'', ''x'', ''()'']"
      and ppVtab = None and pzErr = None,
      THEN conjunct2, THEN conjunct1, THEN mp, OF h3]
  note d = connect_is_create [where api = "toy_api (toy_select [])" and mem = memory_ok
      and argv = "[''statement'', ''main'', ''x'', ''not-parenthesized'']"
      and ppVtab = None and pzErr = None,
      THEN conjunct2, THEN conjunct2, THEN conjunct1, THEN mp, OF h4]
  note e = connect_is_create [where api = "toy_api toy_update" and mem = memory_ok
      and argv = toy_argv and pStmt = "toy_handle []" and ppVtab = None and pzErr = None,
      THEN conjunct2, THEN conjunct2, THEN conjunct2, THEN conjunct1, THEN mp, OF h5]
  note f = connect_is_create [where api = "toy_api toy_nameless" and mem = memory_ok
      and argv = toy_argv and pStmt = "toy_handle []" and j = 0 and ppVtab = None and pzErr = None,
      THEN conjunct2, THEN conjunct2, THEN conjunct2, THEN conjunct2, THEN conjunct1, THEN mp, OF h6]
  have a': "statement_vtab_connect (toy_api (toy_select [])) memory_ok toy_argv None None
     = (SQLITE_OK, Some toy_vtab, None)"
    unfolding a by (simp add: toy_argument toy_prepare toy_vtab_def toy_select_def)
  have b': "statement_vtab_connect (strict_api toy_dup) memory_ok dup_argv None None
     = (SQLITE_ERROR, None, Some ''duplicate column name'')"
    unfolding b dup_rejected
    by (simp add: strict_fields(5) memory_ok_def SQLITE_OK_def SQLITE_ERROR_def)
  show ?thesis using a' b' c d e f by simp
qed

end
